theory Spec2Isabelle
  imports Complex_Main "HOL-Library.Multiset"
begin

section \<open>Data model of the hkl geometry core\<close>

text \<open>
  The C library stores every scalar as a \<^verbatim>\<open>double\<close>. The embedding reads doubles as
  real numbers; a double that may be NaN (the result of
  \<^verbatim>\<open>hkl_parameter_value_get_closest\<close>) is a \<^typ>\<open>real option\<close> with \<^term>\<open>None\<close>
  for NaN. In the lattice functions, where the sign of a computed double decides between
  success and failure, the rounding of the arithmetic is an argument. A function that reports failure through its return value and a
  \<^verbatim>\<open>GError\<close> returns a sum: \<^term>\<open>Inl\<close> carries the error, \<^term>\<open>Inr\<close> the
  result of a \<^verbatim>\<open>TRUE\<close> return together with the updated object.
\<close>

type_synonym HklVector = "real \<times> real \<times> real"

type_synonym HklQuaternion = "real \<times> real \<times> real \<times> real"

text \<open>
  The kind of a parameter: a plain scalar (\<^verbatim>\<open>hkl_holder_add_parameter\<close>), a rotation
  around \<^verbatim>\<open>axis_v\<close> through an origin (\<^verbatim>\<open>hkl_holder_add_rotation\<close> uses the origin
  \<open>(0,0,0)\<close>, \<^verbatim>\<open>hkl_holder_add_rotation_with_origin\<close> an explicit one), or a
  translation along \<^verbatim>\<open>axis_v\<close> (\<^verbatim>\<open>hkl_holder_add_translation\<close>).
\<close>

datatype HklTransformation =
    Scalar
  | Rotation HklVector HklVector
  | Translation HklVector

text \<open>
  \<^verbatim>\<open>struct _HklParameter\<close>: \<open>p_name\<close> is \<^verbatim>\<open>name\<close>, \<open>p_min\<close> and \<open>p_max\<close> are
  \<^verbatim>\<open>range.min\<close> and \<^verbatim>\<open>range.max\<close>, \<open>p_value\<close> is \<^verbatim>\<open>_value\<close> (default unit),
  \<open>p_fit\<close> and \<open>p_changed\<close> the two flags, \<open>p_kind\<close> the operations table together
  with the \<^verbatim>\<open>HklAxis\<close> vector it works with.
\<close>

record HklParameter =
  p_name :: string
  p_min :: real
  p_max :: real
  p_value :: real
  p_fit :: bool
  p_changed :: bool
  p_kind :: HklTransformation

text \<open>
  \<^verbatim>\<open>HklHolder\<close>: \<open>h_idx\<close> is \<^verbatim>\<open>config->idx[0..len-1]\<close>, the indices of the holder's
  axes in the owning geometry, \<open>h_q\<close> the cached quaternion \<^verbatim>\<open>q\<close>.
\<close>

record HklHolder =
  h_idx :: "nat list"
  h_q :: HklQuaternion

text \<open>
  \<^verbatim>\<open>struct _HklGeometry\<close>: \<open>wave_length\<close> is \<^verbatim>\<open>source.wave_length\<close>, \<open>axes\<close> and
  \<open>holders\<close> are the two \<^verbatim>\<open>darray\<close>s.
\<close>

record HklGeometry =
  wave_length :: real
  axes :: "HklParameter list"
  holders :: "HklHolder list"

text \<open>
  \<open>GUARD\<close> is the failure of an \<^verbatim>\<open>hkl_error (error == NULL || *error == NULL)\<close> or
  \<^verbatim>\<open>g_return_val_if_fail\<close> guard, \<open>ASSERT\<close> a failed \<^verbatim>\<open>hkl_assert\<close>, \<open>EXIT n\<close> is \<^verbatim>\<open>exit(n)\<close>, \<open>PARAMETER_SET\<close> a
  \<^verbatim>\<open>FALSE\<close> from \<^verbatim>\<open>hkl_parameter_value_set\<close>; the others are the \<^verbatim>\<open>GError\<close> codes
  set by the code under study.
\<close>

datatype HklError =
    GUARD
  | ASSERT
  | EXIT nat
  | HKL_LATTICE_CHECK_LATTICE
  | PARAMETER_NEW
  | PARAMETER_SET

text \<open>
  The \<^verbatim>\<open>GError **error\<close> argument on entry: \<open>NoSlot\<close> is \<^verbatim>\<open>error == NULL\<close>,
  \<open>Slot e\<close> is a slot holding \<open>e\<close>.
\<close>

datatype GErrorSlot = NoSlot | Slot "HklError option"

fun error_unset :: "GErrorSlot \<Rightarrow> bool" where
  "error_unset NoSlot = True"
| "error_unset (Slot e) = (e = None)"

section \<open>Parameters\<close>

text \<open>
  Modelled from the spec: \<^verbatim>\<open>hkl_parameter_transformation_cmp\<close> is defined in the
  parameter and axis headers, which are not under src. The spec: two parameters are
  compatible iff same kind and exactly equal axis_v/origin. The result is \<open>0\<close> for
  compatible parameters, as \<^verbatim>\<open>tests/hkl-axis-t.c\<close> checks.
\<close>

definition hkl_parameter_transformation_cmp :: "HklParameter \<Rightarrow> HklParameter \<Rightarrow> int" where
  "hkl_parameter_transformation_cmp p1 p2 = (if p_kind p1 = p_kind p2 then 0 else 1)"

text \<open>\<^verbatim>\<open>hkl_parameter_new_copy\<close>: a fresh copy of the structure.\<close>

definition hkl_parameter_new_copy :: "HklParameter \<Rightarrow> HklParameter" where
  "hkl_parameter_new_copy p = p"

section \<open>Holders\<close>

text \<open>
  Modelled from the spec: \<^verbatim>\<open>hkl_quaternion_times_quaternion\<close> belongs to the
  vector/matrix/quaternion kernel, which is not under src. It multiplies \<^verbatim>\<open>self\<close> on
  the right by \<^verbatim>\<open>q\<close>, the product of quaternions.
\<close>

fun hkl_quaternion_times_quaternion :: "HklQuaternion \<Rightarrow> HklQuaternion \<Rightarrow> HklQuaternion" where
  "hkl_quaternion_times_quaternion (a0, a1, a2, a3) (b0, b1, b2, b3) =
     (a0 * b0 - a1 * b1 - a2 * b2 - a3 * b3,
      a0 * b1 + a1 * b0 + a2 * b3 - a3 * b2,
      a0 * b2 - a1 * b3 + a2 * b0 + a3 * b1,
      a0 * b3 + a1 * b2 - a2 * b1 + a3 * b0)"

text \<open>
  Modelled from the spec: \<^verbatim>\<open>hkl_parameter_quaternion_get\<close> is not under src. The spec:
  quaternion get (rotations only; null for translations). The quaternion of a rotation
  of angle \<^verbatim>\<open>_value\<close> around \<^verbatim>\<open>axis_v\<close>; \<^verbatim>\<open>tests/hkl-axis-t.c\<close> has
  \<open>(\<surd>\<onehalf>, -\<surd>\<onehalf>, 0, 0)\<close> for the axis \<open>(1,0,0)\<close> at \<open>-\<pi>/2\<close> and \<^verbatim>\<open>NULL\<close> for a
  translation. \<^term>\<open>None\<close> is \<^verbatim>\<open>NULL\<close>.
\<close>

fun hkl_parameter_quaternion_get :: "HklParameter \<Rightarrow> HklQuaternion option" where
  "hkl_parameter_quaternion_get p =
     (case p_kind p of
        Rotation (x, y, z) origin \<Rightarrow>
          (let norm = sqrt (x * x + y * y + z * z);
               c = cos (p_value p / 2);
               s = sin (p_value p / 2) / norm
           in Some (c, s * x, s * y, s * z))
      | Scalar \<Rightarrow> None
      | Translation v \<Rightarrow> None)"

text \<open>
  The \<^verbatim>\<open>for\<close> loop of \<^verbatim>\<open>hkl_holder_update\<close> over the indices \<^verbatim>\<open>config->idx\<close> not yet
  visited, with the quaternion accumulated so far. A parameter without a quaternion
  takes the \<^verbatim>\<open>continue\<close> branch.
\<close>

fun holder_update_loop :: "HklParameter list \<Rightarrow> nat list \<Rightarrow> HklQuaternion \<Rightarrow> HklQuaternion" where
  "holder_update_loop as [] q = q"
| "holder_update_loop as (i # idx) q =
     (case hkl_parameter_quaternion_get (as ! i) of
        None \<Rightarrow> holder_update_loop as idx q
      | Some qi \<Rightarrow> holder_update_loop as idx (hkl_quaternion_times_quaternion q qi))"

text \<open>
  \<^verbatim>\<open>hkl_holder_update\<close>; the holder's back pointer \<^verbatim>\<open>self->geometry\<close> is the first
  argument.
\<close>

definition hkl_holder_update :: "HklGeometry \<Rightarrow> HklHolder \<Rightarrow> HklHolder" where
  "hkl_holder_update geometry self =
     self\<lparr>h_q := holder_update_loop (axes geometry) (h_idx self) (1, 0, 0, 0)\<rparr>"

text \<open>\<^verbatim>\<open>hkl_geometry_update\<close>.\<close>

definition hkl_geometry_update :: "HklGeometry \<Rightarrow> HklGeometry" where
  "hkl_geometry_update self =
     (if \<exists>axis \<in> set (axes self). p_changed axis
      then self\<lparr>holders := map (hkl_holder_update self) (holders self),
                axes := map (\<lambda>axis. axis\<lparr>p_changed := False\<rparr>) (axes self)\<rparr>
      else self)"

section \<open>Parameter values\<close>

text \<open>
  Modelled from the spec: \<^verbatim>\<open>hkl_parameter_value_get\<close> and
  \<^verbatim>\<open>hkl_parameter_value_set\<close> are not under src. Both are taken in the default unit
  (\<^verbatim>\<open>HKL_UNIT_DEFAULT\<close>), the only one the code under study passes. The spec: set on
  NaN is rejected (a real is never NaN), out-of-range on a bounded translation is
  rejected; a set marks the parameter as changed. \<^term>\<open>None\<close> is the \<^verbatim>\<open>FALSE\<close>
  return, which leaves the parameter as it was.
\<close>

definition hkl_parameter_value_get :: "HklParameter \<Rightarrow> real" where
  "hkl_parameter_value_get p = p_value p"

definition hkl_parameter_value_set :: "HklParameter \<Rightarrow> real \<Rightarrow> HklParameter option" where
  "hkl_parameter_value_set p v =
     (case p_kind p of
        Translation axis_v \<Rightarrow>
          (if v < p_min p \<or> p_max p < v then None
           else Some (p\<lparr>p_value := v, p_changed := True\<rparr>))
      | Scalar \<Rightarrow> Some (p\<lparr>p_value := v, p_changed := True\<rparr>)
      | Rotation axis_v origin \<Rightarrow> Some (p\<lparr>p_value := v, p_changed := True\<rparr>))"

text \<open>\<^verbatim>\<open>IGNORE(hkl_parameter_value_set(p, v, HKL_UNIT_DEFAULT, NULL))\<close>.\<close>

definition ignore_value_set :: "HklParameter \<Rightarrow> real \<Rightarrow> HklParameter" where
  "ignore_value_set p v = (case hkl_parameter_value_set p v of None \<Rightarrow> p | Some p' \<Rightarrow> p')"

section \<open>Geometry: axes and wavelength\<close>

text \<open>
  The \<^verbatim>\<open>darray_foreach\<close> loop of \<^verbatim>\<open>hkl_geometry_add_axis\<close>, started at counter \<open>i\<close> on
  the axes not yet visited: \<open>Some (Inr i)\<close> is \<^verbatim>\<open>return i\<close>, \<open>Some (Inl (EXIT 128))\<close>
  is \<^verbatim>\<open>exit(128)\<close>, \<open>None\<close> is the end of the loop with no axis of that name.
\<close>

fun add_axis_loop :: "HklParameter list \<Rightarrow> HklParameter \<Rightarrow> nat \<Rightarrow> (HklError + nat) option" where
  "add_axis_loop [] axis i = None"
| "add_axis_loop (parameter # rest) axis i =
     (if p_name parameter = p_name axis then
        (if hkl_parameter_transformation_cmp parameter axis \<noteq> 0
         then Some (Inl (EXIT 128))
         else Some (Inr i))
      else add_axis_loop rest axis (i + 1))"

definition hkl_geometry_add_axis ::
  "HklGeometry \<Rightarrow> HklParameter \<Rightarrow> HklError + (nat \<times> HklGeometry)" where
  "hkl_geometry_add_axis self axis =
     (case add_axis_loop (axes self) axis 0 of
        Some (Inl e) \<Rightarrow> Inl e
      | Some (Inr i) \<Rightarrow> Inr (i, self)
      | None \<Rightarrow>
          (let self' = self\<lparr>axes := axes self @ [hkl_parameter_new_copy axis]\<rparr>
           in Inr (length (axes self') - 1, self')))"

definition hkl_geometry_wavelength_get :: "HklGeometry \<Rightarrow> real" where
  "hkl_geometry_wavelength_get self = wave_length self"

definition hkl_geometry_wavelength_set ::
  "HklGeometry \<Rightarrow> real \<Rightarrow> GErrorSlot \<Rightarrow> HklError + HklGeometry" where
  "hkl_geometry_wavelength_set self wavelength error =
     (if \<not> error_unset error then Inl GUARD
      else Inr (self\<lparr>wave_length := wavelength\<rparr>))"


section \<open>The q pseudo-axis engine\<close>

text \<open>
  \<^verbatim>\<open>qmax\<close>. The macro \<^verbatim>\<open>HKL_TAU\<close> is defined in a header that is not under src; it
  is the first argument here.
\<close>

definition qmax :: "real \<Rightarrow> real \<Rightarrow> real" where
  "qmax HKL_TAU wavelength = 2 * HKL_TAU / wavelength"

text \<open>
  \<^verbatim>\<open>get_q_real\<close>. The vectors \<^verbatim>\<open>ki\<close> and \<^verbatim>\<open>kf\<close> come from the geometry's
  operations table (\<^verbatim>\<open>self->ops->ki_get\<close>, \<^verbatim>\<open>self->ops->kf_get\<close>) and the angle from
  \<^verbatim>\<open>hkl_vector_angle\<close>; the three functions are arguments. The engine's state is its
  pseudo-axis parameter \<^verbatim>\<open>engine->q\<close>; the result is the returned flag and the
  updated parameter.
\<close>

definition get_q_real ::
  "real \<Rightarrow> (HklVector \<Rightarrow> HklVector \<Rightarrow> real) \<Rightarrow> (HklGeometry \<Rightarrow> HklVector) \<Rightarrow>
   (HklGeometry \<Rightarrow> 'd \<Rightarrow> HklVector) \<Rightarrow> HklParameter \<Rightarrow> HklGeometry \<Rightarrow> 'd \<Rightarrow>
   bool \<times> HklParameter" where
  "get_q_real HKL_TAU hkl_vector_angle ki_get kf_get q geometry detector =
     (let wavelength = wave_length geometry;
          ki = ki_get geometry;
          kf = kf_get geometry detector;
          theta = hkl_vector_angle ki kf / 2;
          theta = (if fst (snd kf) < 0 \<or> snd (snd kf) < 0 then - theta else theta)
      in (True, q\<lparr>p_value := qmax HKL_TAU wavelength * sin theta\<rparr>))"

section \<open>Lattice\<close>

text \<open>
  \<^verbatim>\<open>HklMatrix\<close>: the three rows \<^verbatim>\<open>data[0]\<close>, \<^verbatim>\<open>data[1]\<close>, \<^verbatim>\<open>data[2]\<close>.
\<close>

type_synonym HklMatrix = "HklVector \<times> HklVector \<times> HklVector"

text \<open>
  \<^verbatim>\<open>struct _HklLattice\<close>: the six lattice parameters and the volume.
\<close>

record HklLattice =
  l_a :: HklParameter
  l_b :: HklParameter
  l_c :: HklParameter
  l_alpha :: HklParameter
  l_beta :: HklParameter
  l_gamma :: HklParameter
  l_volume :: HklParameter

text \<open>
  Double arithmetic. A double is read as the real number it stands for. In C the result
  of an arithmetic operation on doubles is the exact result rounded to a double, and
  \<^verbatim>\<open>cos\<close>, \<^verbatim>\<open>sin\<close> and \<^verbatim>\<open>sqrt\<close> of the mathematical library return a double near the
  exact value. The rounding \<open>fl\<close> and the three functions are not under src; they are
  the fields of an argument of the lattice functions, whose tests \<^verbatim>\<open>D < 0.\<close> and
  \<^verbatim>\<open>D > 0.\<close> read a rounded double. The operations apply in the order of the C
  expressions, from left to right. \<open>exact_math\<close> is the arithmetic without rounding.
\<close>

record DoubleMath =
  fl :: "real \<Rightarrow> real"
  cos_d :: "real \<Rightarrow> real"
  sin_d :: "real \<Rightarrow> real"
  sqrt_d :: "real \<Rightarrow> real"














text \<open>
  \<^verbatim>\<open>hkl_lattice_get_B\<close>: the fourth argument is the content of \<^verbatim>\<open>*B\<close> on entry, which
  the \<^verbatim>\<open>FALSE\<close> return leaves as it is. The macro \<^verbatim>\<open>HKL_TAU\<close> is not under src; it is
  the second argument.
\<close>

definition hkl_lattice_get_B ::
  "DoubleMath \<Rightarrow> real \<Rightarrow> HklLattice \<Rightarrow> HklMatrix \<Rightarrow> bool \<times> HklMatrix" where
  "hkl_lattice_get_B M HKL_TAU self B =
     (let c_alpha = cos_d M (hkl_parameter_value_get (l_alpha self));
          c_beta = cos_d M (hkl_parameter_value_get (l_beta self));
          c_gamma = cos_d M (hkl_parameter_value_get (l_gamma self));
          D = fl M (fl M (fl M (fl M (1 - fl M (c_alpha * c_alpha)) - fl M (c_beta * c_beta))
                          - fl M (c_gamma * c_gamma))
                    + fl M (fl M (fl M (2 * c_alpha) * c_beta) * c_gamma))
      in if D > 0 then
           (let D = sqrt_d M D;
                s_alpha = sin_d M (hkl_parameter_value_get (l_alpha self));
                s_beta = sin_d M (hkl_parameter_value_get (l_beta self));
                s_gamma = sin_d M (hkl_parameter_value_get (l_gamma self));
                b11 = fl M (HKL_TAU / fl M (hkl_parameter_value_get (l_b self) * s_alpha));
                b22 = fl M (HKL_TAU / hkl_parameter_value_get (l_c self));
                tmp = fl M (b22 / s_alpha)
            in (True,
                ((fl M (fl M (HKL_TAU * s_alpha)
                          / fl M (hkl_parameter_value_get (l_a self) * D)),
                  fl M (fl M (b11 / D) * fl M (fl M (c_alpha * c_beta) - c_gamma)),
                  fl M (fl M (tmp / D) * fl M (fl M (c_gamma * c_alpha) - c_beta))),
                 (0, b11,
                  fl M (fl M (tmp / fl M (s_beta * s_gamma))
                          * fl M (fl M (c_beta * c_gamma) - c_alpha))),
                 (0, 0, b22))))
         else (False, B))"










section \<open>Geometry list\<close>

text \<open>
  \<^verbatim>\<open>HklGeometryList\<close>: the linked list \<^verbatim>\<open>items\<close> in order. The counter \<^verbatim>\<open>n_items\<close> is kept
  equal to the number of linked items by every operation; the model reads it as the
  length of the list. The \<^verbatim>\<open>multiply\<close> hook is an argument where it is called.
\<close>

record HklGeometryList =
  items :: "HklGeometry list"

text \<open>
  \<^verbatim>\<open>hkl_geometry_distance\<close>: the loop runs over the axes of \<^verbatim>\<open>self\<close> and reads the same
  index in \<^verbatim>\<open>ref\<close> (both geometries come from one factory and have the same axes).
\<close>

definition hkl_geometry_distance :: "HklGeometry \<Rightarrow> HklGeometry \<Rightarrow> real" where
  "hkl_geometry_distance self ref =
     foldl (\<lambda>distance i.
              (let value1 = p_value (axes self ! i);
                   value2 = p_value (axes ref ! i)
               in distance + \<bar>value2 - value1\<bar>))
           0 [0..<length (axes self)]"

text \<open>
  The scan \<^verbatim>\<open>for(p = 0; distances[idx[p]] < distances[x] && fabs(...) > HKL_EPSILON; p++);\<close>
  of \<^verbatim>\<open>hkl_geometry_list_sort\<close>, from position \<open>p\<close>. The macro \<^verbatim>\<open>HKL_EPSILON\<close> is not
  under src; it is the first argument. The C loop has no bound on \<open>p\<close>: it stops at
  \<open>p = i\<close> at the latest, where \<^verbatim>\<open>idx[p]\<close> is \<open>x\<close> itself (lemma \<open>sort_find_p_le\<close>).
  The test \<open>p < length idx\<close> is the end of the array, which the scan does not reach.
\<close>

function sort_find_p :: "real \<Rightarrow> real list \<Rightarrow> nat list \<Rightarrow> nat \<Rightarrow> nat \<Rightarrow> nat" where
  "sort_find_p eps distances idx x p =
     (if p < length idx
         \<and> distances ! (idx ! p) < distances ! x
         \<and> \<bar>distances ! (idx ! p) - distances ! x\<bar> > eps
      then sort_find_p eps distances idx x (p + 1)
      else p)"
  by pat_completeness auto
termination
  by (relation "measure (\<lambda>(eps, distances, idx, x, p). length idx - p)") auto

declare sort_find_p.simps [simp del]

text \<open>
  The loop \<^verbatim>\<open>for(j=i-1; j>=p; j--) idx[j+1] = idx[j];\<close> with the signed \<open>j\<close>.
\<close>

function sort_shift :: "nat list \<Rightarrow> int \<Rightarrow> nat \<Rightarrow> nat list" where
  "sort_shift idx j p =
     (if j \<ge> int p
      then sort_shift (idx[nat (j + 1) := idx ! nat j]) (j - 1) p
      else idx)"
  by pat_completeness auto
termination
  by (relation "measure (\<lambda>(idx, j, p). nat (j + 1))") auto

declare sort_shift.simps [simp del]

text \<open>
  One round of the insertion sort, for the position \<open>i\<close>.
\<close>

definition sort_step :: "real \<Rightarrow> real list \<Rightarrow> nat list \<Rightarrow> nat \<Rightarrow> nat list" where
  "sort_step eps distances idx i =
     (let x = idx ! i;
          p = sort_find_p eps distances idx x 0;
          idx = sort_shift idx (int i - 1) p
      in idx[p := x])"

text \<open>
  \<^verbatim>\<open>hkl_geometry_list_sort\<close>: the distances are computed once, the index array starts
  as the identity, the rounds run for \<open>i = 1 .. n_items - 1\<close>, and the list is
  rebuilt in the order of the index array.
\<close>

definition hkl_geometry_list_sort :: "real \<Rightarrow> HklGeometryList \<Rightarrow> HklGeometry \<Rightarrow> HklGeometryList" where
  "hkl_geometry_list_sort eps self ref =
     (let n_items = length (items self);
          distances = map (\<lambda>item. hkl_geometry_distance ref item) (items self);
          idx = foldl (sort_step eps distances) [0..<n_items] [1..<n_items]
      in self\<lparr>items := map (\<lambda>k. items self ! k) idx\<rparr>)"

text \<open>
  Modelled from the spec: \<^verbatim>\<open>hkl_parameter_orthodromic_distance_get\<close> is not under src.
  The spec: orthodromic distance to another angle (wrap to shortest modulo 2\<pi>), and
  the sum over axes of shortest-arc angular distances (rotations) plus linear distances
  (translations). \<open>angle_distance\<close> is the shortest arc between two angles.
\<close>

definition angle_distance :: "real \<Rightarrow> real \<Rightarrow> real" where
  "angle_distance a b =
     (let d = \<bar>a - b\<bar>;
          r = d - 2 * pi * of_int \<lfloor>d / (2 * pi)\<rfloor>
      in if r > pi then 2 * pi - r else r)"

definition hkl_parameter_orthodromic_distance_get :: "HklParameter \<Rightarrow> real \<Rightarrow> real" where
  "hkl_parameter_orthodromic_distance_get self v =
     (case p_kind self of
        Rotation axis_v origin \<Rightarrow> angle_distance v (p_value self)
      | Translation axis_v \<Rightarrow> \<bar>v - p_value self\<bar>
      | Scalar \<Rightarrow> \<bar>v - p_value self\<bar>)"

text \<open>
  \<^verbatim>\<open>hkl_geometry_distance_orthodromic\<close>.
\<close>

definition hkl_geometry_distance_orthodromic :: "HklGeometry \<Rightarrow> HklGeometry \<Rightarrow> real" where
  "hkl_geometry_distance_orthodromic self ref =
     foldl (\<lambda>distance i.
              distance + hkl_parameter_orthodromic_distance_get (axes self ! i)
                           (p_value (axes ref ! i)))
           0 [0..<length (axes self)]"

text \<open>
  \<^verbatim>\<open>hkl_geometry_list_item_new\<close>: an item holding a copy of the geometry.
\<close>

definition hkl_geometry_list_item_new :: "HklGeometry \<Rightarrow> HklGeometry" where
  "hkl_geometry_list_item_new geometry = geometry"

text \<open>
  The \<^verbatim>\<open>list_for_each\<close> loop of \<^verbatim>\<open>hkl_geometry_list_add\<close>: \<^term>\<open>True\<close> when it
  returns early, on an item at orthodromic distance below \<^verbatim>\<open>HKL_EPSILON\<close>.
\<close>

fun list_add_loop :: "real \<Rightarrow> HklGeometry \<Rightarrow> HklGeometry list \<Rightarrow> bool" where
  "list_add_loop eps geometry [] = False"
| "list_add_loop eps geometry (item # rest) =
     (if hkl_geometry_distance_orthodromic geometry item < eps then True
      else list_add_loop eps geometry rest)"

text \<open>
  \<^verbatim>\<open>hkl_geometry_list_add\<close>.
\<close>

definition hkl_geometry_list_add :: "real \<Rightarrow> HklGeometryList \<Rightarrow> HklGeometry \<Rightarrow> HklGeometryList" where
  "hkl_geometry_list_add eps self geometry =
     (if list_add_loop eps geometry (items self) then self
      else self\<lparr>items := items self @ [hkl_geometry_list_item_new geometry]\<rparr>)"

text \<open>
  \<^verbatim>\<open>hkl_geometry_is_valid_range\<close>. The test \<^verbatim>\<open>hkl_parameter_is_valid_range\<close> is not
  under src; it is the first argument.
\<close>

fun hkl_geometry_is_valid_range_loop :: "(HklParameter \<Rightarrow> bool) \<Rightarrow> HklParameter list \<Rightarrow> bool" where
  "hkl_geometry_is_valid_range_loop valid [] = True"
| "hkl_geometry_is_valid_range_loop valid (axis # rest) =
     (if \<not> valid axis then False else hkl_geometry_is_valid_range_loop valid rest)"

definition hkl_geometry_is_valid_range :: "(HklParameter \<Rightarrow> bool) \<Rightarrow> HklGeometry \<Rightarrow> bool" where
  "hkl_geometry_is_valid_range valid self = hkl_geometry_is_valid_range_loop valid (axes self)"

text \<open>
  \<^verbatim>\<open>hkl_geometry_list_remove_invalid\<close>.
\<close>

definition hkl_geometry_list_remove_invalid ::
  "(HklParameter \<Rightarrow> bool) \<Rightarrow> HklGeometryList \<Rightarrow> HklGeometryList" where
  "hkl_geometry_list_remove_invalid valid self =
     self\<lparr>items := filter (hkl_geometry_is_valid_range valid) (items self)\<rparr>"

text \<open>
  Modelled from the spec: \<^verbatim>\<open>hkl_parameter_is_permutable\<close> is not under src. The spec:
  a permutable axis is a rotation whose range spans more than 2\<pi>.
\<close>

definition hkl_parameter_is_permutable :: "HklParameter \<Rightarrow> bool" where
  "hkl_parameter_is_permutable p =
     (case p_kind p of
        Rotation axis_v origin \<Rightarrow> p_max p - p_min p > 2 * pi
      | Translation axis_v \<Rightarrow> False
      | Scalar \<Rightarrow> False)"

text \<open>
  Modelled from the spec: \<^verbatim>\<open>hkl_parameter_value_set_smallest_in_range\<close> is not under
  src. The spec: smallest-in-range value (lift into [min, min+2\<pi>) for rotations);
  \<^verbatim>\<open>tests/hkl-axis-t.c\<close> has 185 become -175 in the range [-190, 190] (degrees).
\<close>

definition hkl_parameter_value_set_smallest_in_range :: "HklParameter \<Rightarrow> HklParameter" where
  "hkl_parameter_value_set_smallest_in_range p =
     (case p_kind p of
        Rotation axis_v origin \<Rightarrow>
          ignore_value_set p
            (p_value p - 2 * pi * of_int \<lfloor>(p_value p - p_min p) / (2 * pi)\<rfloor>)
      | Translation axis_v \<Rightarrow> p
      | Scalar \<Rightarrow> p)"

text \<open>
  The \<^verbatim>\<open>do ... while(value <= (max + HKL_EPSILON))\<close> loop of \<^verbatim>\<open>perm_r\<close>. \<open>body\<close> is
  the recursive call \<^verbatim>\<open>perm_r(self, ref, geometry, axis_idx + 1)\<close>: it appends to the
  list and hands the geometry back as it received it (every call restores the axis values
  it wrote), so only the list is threaded through it. The loop returns the geometry with
  the last value written and the list.
\<close>

function perm_r_do ::
  "(HklGeometry \<Rightarrow> HklGeometry list \<Rightarrow> HklGeometry list) \<Rightarrow> nat \<Rightarrow> real \<Rightarrow> real \<Rightarrow> real \<Rightarrow>
   HklGeometry \<Rightarrow> HklGeometry list \<Rightarrow> HklGeometry \<times> HklGeometry list" where
  "perm_r_do body axis_idx eps mx v geometry its =
     (let its = body geometry its;
          v = v + 2 * pi;
          geometry =
            (if v \<le> mx + eps
             then geometry\<lparr>axes := (axes geometry)
                    [axis_idx := (axes geometry ! axis_idx)\<lparr>p_value := v\<rparr>]\<rparr>
             else geometry)
      in if v \<le> mx + eps then perm_r_do body axis_idx eps mx v geometry its
         else (geometry, its))"
  by pat_completeness auto
termination
proof (relation "measure (\<lambda>(body, axis_idx, eps, mx, v, geometry, its).
                    nat \<lfloor>(mx + eps - v) / (2 * pi)\<rfloor>)", goal_cases)
  case 1
  show ?case by simp
next
  case (2 body axis_idx eps mx v geometry its x xa xb)
  then have le: "v + 2 * pi \<le> mx + eps" by simp
  have "(mx + eps - (v + 2 * pi)) / (2 * pi) = (mx + eps - v) / (2 * pi) - 1"
    by (simp add: field_simps)
  then have fl: "\<lfloor>(mx + eps - (v + 2 * pi)) / (2 * pi)\<rfloor> = \<lfloor>(mx + eps - v) / (2 * pi)\<rfloor> - 1"
    by simp
  from le have "0 \<le> (mx + eps - (v + 2 * pi)) / (2 * pi)" by simp
  then have "0 \<le> \<lfloor>(mx + eps - (v + 2 * pi)) / (2 * pi)\<rfloor>" by simp
  with fl 2 show ?case by simp
qed

declare perm_r_do.simps [simp del]

text \<open>
  \<^verbatim>\<open>perm_r\<close>, by recursion on the number of axes still to visit: with \<open>n\<close> axes to
  go, \<^verbatim>\<open>axis_idx\<close> is \<open>length (axes geometry) - n\<close>. The final assignment
  \<^verbatim>\<open>axis->_value = value0\<close> restores the geometry, which the result does not hold.
\<close>

primrec perm_r_rec ::
  "real \<Rightarrow> HklGeometry \<Rightarrow> nat \<Rightarrow> HklGeometry \<Rightarrow> HklGeometry list \<Rightarrow> HklGeometry list" where
  "perm_r_rec eps ref 0 = (\<lambda>geometry its.
     if hkl_geometry_distance geometry ref > eps
     then its @ [hkl_geometry_list_item_new geometry]
     else its)"
| "perm_r_rec eps ref (Suc n) = (\<lambda>geometry its.
     (let axis_idx = length (axes geometry) - Suc n;
          axis = axes geometry ! axis_idx
      in if hkl_parameter_is_permutable axis then
           (let mx = p_max axis;
                value0 = p_value axis
            in snd (perm_r_do (perm_r_rec eps ref n) axis_idx eps mx value0 geometry its))
         else perm_r_rec eps ref n geometry its))"

text \<open>
  The call \<^verbatim>\<open>perm_r(self, ref, geometry, 0)\<close>, on the items of the list.
\<close>

definition perm_r ::
  "real \<Rightarrow> HklGeometry list \<Rightarrow> HklGeometry \<Rightarrow> HklGeometry \<Rightarrow> HklGeometry list" where
  "perm_r eps its ref geometry = perm_r_rec eps ref (length (axes geometry)) geometry its"

text \<open>
  \<^verbatim>\<open>hkl_geometry_list_multiply_from_range\<close>: the loop visits the items present on
  entry; the expansions are appended behind them.
\<close>

definition hkl_geometry_list_multiply_from_range :: "real \<Rightarrow> HklGeometryList \<Rightarrow> HklGeometryList" where
  "hkl_geometry_list_multiply_from_range eps self =
     self\<lparr>items :=
       foldl (\<lambda>its i.
                (let item = its ! i;
                     geometry = item\<lparr>axes :=
                       map (\<lambda>axis. if hkl_parameter_is_permutable axis
                                    then hkl_parameter_value_set_smallest_in_range axis
                                    else axis) (axes item)\<rparr>
                 in perm_r eps its item geometry))
             (items self) [0..<length (items self)]\<rparr>"

text \<open>
  \<^verbatim>\<open>hkl_geometry_list_new\<close>.
\<close>

definition hkl_geometry_list_new :: HklGeometryList where
  "hkl_geometry_list_new = \<lparr>items = []\<rparr>"

text \<open>
  The lists obtained from a new list by \<^verbatim>\<open>hkl_geometry_list_add\<close>,
  \<^verbatim>\<open>hkl_geometry_list_remove_invalid\<close> and \<^verbatim>\<open>hkl_geometry_list_sort\<close>, in any order, with
  geometries that all have the axes kinds \<open>shape\<close> (the geometries of one list are
  copies of one factory's geometry).
\<close>

inductive list_built :: "real \<Rightarrow> HklTransformation list \<Rightarrow> HklGeometryList \<Rightarrow> bool"
  for eps :: real and shape :: "HklTransformation list" where
    built_new: "list_built eps shape hkl_geometry_list_new"
  | built_add: "list_built eps shape self \<Longrightarrow> map p_kind (axes geometry) = shape \<Longrightarrow>
                list_built eps shape (hkl_geometry_list_add eps self geometry)"
  | built_remove_invalid: "list_built eps shape self \<Longrightarrow>
                list_built eps shape (hkl_geometry_list_remove_invalid valid self)"
  | built_sort: "list_built eps shape self \<Longrightarrow>
                list_built eps shape (hkl_geometry_list_sort eps self ref)"

text \<open>
  Example data: a rotation around \<open>(0,0,1)\<close>, a translation along \<open>(0,0,1)\<close>, and a
  geometry of one holder with one axis.
\<close>

definition rotation_axis :: "string \<Rightarrow> real \<Rightarrow> real \<Rightarrow> real \<Rightarrow> HklParameter" where
  "rotation_axis n mn v mx =
     \<lparr>p_name = n, p_min = mn, p_max = mx, p_value = v, p_fit = True, p_changed = False,
      p_kind = Rotation (0, 0, 1) (0, 0, 0)\<rparr>"

definition translation_axis :: "string \<Rightarrow> real \<Rightarrow> real \<Rightarrow> real \<Rightarrow> HklParameter" where
  "translation_axis n mn v mx =
     \<lparr>p_name = n, p_min = mn, p_max = mx, p_value = v, p_fit = True, p_changed = False,
      p_kind = Translation (0, 0, 1)\<rparr>"

definition single_axis_geometry :: "HklParameter \<Rightarrow> HklGeometry" where
  "single_axis_geometry axis =
     \<lparr>wave_length = 1.54, axes = [axis], holders = [\<lparr>h_idx = [0], h_q = (1, 0, 0, 0)\<rparr>]\<rparr>"

text \<open>
  The invariant of the insertion sort before round \<open>i\<close>: the index array is a
  permutation of \<open>0 .. n-1\<close>, its tail from \<open>i\<close> on is untouched, and the distances
  of its first \<open>i\<close> entries do not decrease by more than \<open>eps\<close> from one entry to the
  next.
\<close>

definition sort_inv :: "real \<Rightarrow> real list \<Rightarrow> nat list \<Rightarrow> nat \<Rightarrow> bool" where
  "sort_inv eps d idx i =
     (length idx = length d \<and> i \<le> length d
      \<and> mset idx = mset [0..<length d]
      \<and> drop i idx = [i..<length d]
      \<and> successively (\<lambda>a b. a \<le> b + eps) (map (\<lambda>k. d ! k) (take i idx)))"

text \<open>
  The order the insertion leaves between the positions of the list before the sort: a
  position \<open>u\<close> stands in front of a later position \<open>v\<close> only where its distance is smaller
  by more than \<open>eps\<close>.
\<close>

definition sort_rev :: "real \<Rightarrow> real list \<Rightarrow> nat list \<Rightarrow> bool" where
  "sort_rev eps d idx =
     sorted_wrt (\<lambda>u v. u < v \<longrightarrow> d ! u < d ! v \<and> \<bar>d ! u - d ! v\<bar> > eps) idx"

text \<open>
  Pairwise separation of the items of a list whose geometries have the axes kinds
  \<open>shape\<close>.
\<close>

definition separated :: "real \<Rightarrow> HklTransformation list \<Rightarrow> HklGeometry list \<Rightarrow> bool" where
  "separated eps shape its =
     ((\<forall>g \<in> set its. map p_kind (axes g) = shape)
      \<and> (\<forall>i < length its. \<forall>j < length its. i \<noteq> j \<longrightarrow>
            eps \<le> hkl_geometry_distance_orthodromic (its ! i) (its ! j)))"

section \<open>Closest values\<close>

text \<open>
  Modelled from the spec: \<^verbatim>\<open>hkl_parameter_value_get_closest\<close> is not under src. The spec:
  ``pick the \<open>2\<pi>\<close>-equivalent representative inside \<open>[min,max]\<close> nearest to a reference
  value; NaN if none'', and ``for rotation with range spanning more than \<open>2\<pi>\<close>,
  closest(to ref) lies in \<open>[min,max]\<close> and the distance to ref is minimal over all
  \<open>2\<pi>\<close>-shifts''. The representatives are those of the value of the parameter itself,
  as \<^verbatim>\<open>get_value_closest\<close> of tests/hkl-axis-t.c has them (range \<open>[-270, 180]\<close> degrees,
  value \<open>100\<close>: reference \<open>-75\<close> gives \<open>100\<close>, reference \<open>-85\<close> gives \<open>-260\<close>). The shifts
  \<open>value + 2\<pi>k\<close> inside the range are those with \<open>kmin \<le> k \<le> kmax\<close>; the first nearest one
  is taken. A translation or a scalar has no other representative than its value.
  \<^term>\<open>None\<close> is NaN.
\<close>

definition closest_of :: "real \<Rightarrow> real \<Rightarrow> real list \<Rightarrow> real" where
  "closest_of target c cs =
     foldl (\<lambda>best x. if \<bar>x - target\<bar> < \<bar>best - target\<bar> then x else best) c cs"

definition hkl_parameter_value_get_closest :: "HklParameter \<Rightarrow> HklParameter \<Rightarrow> real option" where
  "hkl_parameter_value_get_closest self ref =
     (case p_kind self of
        Rotation axis_v origin \<Rightarrow>
          (let v = p_value self;
               kmin = \<lceil>(p_min self - v) / (2 * pi)\<rceil>;
               kmax = \<lfloor>(p_max self - v) / (2 * pi)\<rfloor>
           in if kmax < kmin then None
              else Some (closest_of (p_value ref) (v + 2 * pi * of_int kmin)
                           (map (\<lambda>k. v + 2 * pi * of_int k) [kmin + 1..kmax])))
      | Translation axis_v \<Rightarrow>
          (if p_min self \<le> p_value self \<and> p_value self \<le> p_max self
           then Some (p_value self) else None)
      | Scalar \<Rightarrow>
          (if p_min self \<le> p_value self \<and> p_value self \<le> p_max self
           then Some (p_value self) else None))"

text \<open>
  The first loop of \<^verbatim>\<open>hkl_geometry_closest_from_geometry_with_range\<close>: it fills
  \<^verbatim>\<open>values\<close> and stops with \<^verbatim>\<open>ko = TRUE\<close> at the first NaN.
\<close>

fun closest_loop ::
  "HklParameter list \<Rightarrow> HklParameter list \<Rightarrow> nat list \<Rightarrow> real list \<Rightarrow> bool \<times> real list" where
  "closest_loop self_axes ref_axes [] values = (False, values)"
| "closest_loop self_axes ref_axes (i # rest) values =
     (case hkl_parameter_value_get_closest (self_axes ! i) (ref_axes ! i) of
        None \<Rightarrow> (True, values)
      | Some v \<Rightarrow> closest_loop self_axes ref_axes rest (values @ [v]))"

text \<open>
  \<^verbatim>\<open>hkl_geometry_closest_from_geometry_with_range\<close>: the returned flag is \<^verbatim>\<open>ko\<close>
  (\<^term>\<open>False\<close> is the return value 0), with the geometry as the call leaves it.
\<close>

definition hkl_geometry_closest_from_geometry_with_range ::
  "HklGeometry \<Rightarrow> HklGeometry \<Rightarrow> bool \<times> HklGeometry" where
  "hkl_geometry_closest_from_geometry_with_range self ref =
     (let len = length (axes self);
          (ko, values) = closest_loop (axes self) (axes ref) [0..<len] []
      in if \<not> ko
         then (ko, hkl_geometry_update
                     (self\<lparr>axes := map (\<lambda>i. ignore_value_set (axes self ! i) (values ! i))
                                       [0..<len]\<rparr>))
         else (ko, self))"

text \<open>The rotation parameter of \<^verbatim>\<open>get_value_closest\<close> in tests/hkl-axis-t.c.\<close>

definition test_axis :: "real \<Rightarrow> real \<Rightarrow> real \<Rightarrow> HklParameter" where
  "test_axis mn v mx =
     \<lparr>p_name = ''rotation'', p_min = mn, p_max = mx, p_value = v, p_fit = True,
      p_changed = True, p_kind = Rotation (1, 0, 0) (0, 0, 0)\<rparr>"

section \<open>The slit fit of the SOLEIL SIXS MED 2+3 diffractometer\<close>

text \<open>
  \<^verbatim>\<open>slits_func\<close>, the function the solver evaluates at a trial point \<open>x\<close>.
  \<^verbatim>\<open>parameters->axis\<close> points to \<^verbatim>\<open>geometry->axes[slits_id]\<close>, so the write goes to
  that entry of the geometry; the result of \<^verbatim>\<open>hkl_parameter_value_set\<close> is not read.
  The residual written to \<^verbatim>\<open>f\<close> is read by the solver only and is left out.
\<close>

definition slits_func :: "nat \<Rightarrow> HklGeometry \<Rightarrow> real \<Rightarrow> HklGeometry" where
  "slits_func slits_id geometry x =
     hkl_geometry_update
       (geometry\<lparr>axes := (axes geometry)
                   [slits_id := ignore_value_set (axes geometry ! slits_id) x]\<rparr>)"

text \<open>
  \<^verbatim>\<open>fit_slits_orientation\<close>. The hybrid solver of the GSL is not part of the library;
  its run is given by what reaches the geometry: the points \<open>xs\<close> at which it evaluates
  \<^verbatim>\<open>slits_func\<close> after the start point, in order (\<^verbatim>\<open>gsl_multiroot_fsolver_set\<close>
  evaluates it at the start point, the value of the axis; the iterations and the restarts,
  at most \<open>1000\<close> of them, at the points that follow), and whether the last
  \<^verbatim>\<open>gsl_multiroot_test_residual\<close> answered \<^verbatim>\<open>GSL_CONTINUE\<close>. A point that is
  NaN is refused by \<^verbatim>\<open>hkl_parameter_value_set\<close> and leaves the geometry as the
  point before it did, so it is not listed.
  \<^verbatim>\<open>gsl_sf_angle_restrict_pos_e\<close> is an argument; it is applied to \<^verbatim>\<open>_value\<close> in place,
  without \<^verbatim>\<open>hkl_parameter_value_set\<close>. The result is \<^verbatim>\<open>res\<close> with the geometry.
\<close>

definition fit_slits_orientation ::
  "(real \<Rightarrow> real) \<Rightarrow> real list \<Rightarrow> bool \<Rightarrow> nat \<Rightarrow> HklGeometry \<Rightarrow> bool \<times> HklGeometry" where
  "fit_slits_orientation gsl_sf_angle_restrict_pos xs gsl_continue slits_id geometry =
     (let x0 = p_value (axes geometry ! slits_id);
          g = foldl (slits_func slits_id) geometry (x0 # xs)
      in if \<not> gsl_continue
         then (True, g\<lparr>axes := (axes g)
                        [slits_id := (axes g ! slits_id)
                           \<lparr>p_value := gsl_sf_angle_restrict_pos (p_value (axes g ! slits_id))\<rparr>]\<rparr>)
         else (False, g))"

text \<open>
  \<^verbatim>\<open>hkl_geometry_list_multiply_soleil_sixs_med_2_3\<close> on \<^verbatim>\<open>item->geometry\<close>. The list
  \<^verbatim>\<open>self\<close> is not used. \<^verbatim>\<open>slits_id\<close> is \<^verbatim>\<open>idx[len - 1]\<close> of the detector holder,
  \<^verbatim>\<open>holders[1]\<close>. The surface vector, computed from the sample holder, only enters the
  residual.
\<close>

definition hkl_geometry_list_multiply_soleil_sixs_med_2_3 ::
  "(real \<Rightarrow> real) \<Rightarrow> real list \<Rightarrow> bool \<Rightarrow> HklGeometry \<Rightarrow> HklGeometry" where
  "hkl_geometry_list_multiply_soleil_sixs_med_2_3 gsl_sf_angle_restrict_pos xs gsl_continue geometry =
     (let detector_holder = holders geometry ! 1;
          slits_id = last (h_idx detector_holder);
          slits_position = hkl_parameter_value_get (axes geometry ! slits_id);
          (res, g) = fit_slits_orientation gsl_sf_angle_restrict_pos xs gsl_continue
                       slits_id geometry
      in if \<not> res
         then g\<lparr>axes := (axes g)
                  [slits_id := ignore_value_set (axes g ! slits_id) slits_position]\<rparr>
         else g)"

text \<open>
  The geometry of \<^verbatim>\<open>hkl_geometry_new_soleil_sixs_med_2_3\<close> with the axis values \<open>vs\<close>:
  the axes beta, mu, omega, gamma, delta, eta\_a, the sample holder beta, mu, omega and
  the detector holder beta, gamma, delta, eta\_a.
\<close>

definition sixs_med_2_3 :: "real list \<Rightarrow> HklGeometry" where
  "sixs_med_2_3 vs =
     \<lparr>wave_length = 1.54,
      axes = [\<lparr>p_name = ''beta'', p_min = - pi, p_max = pi, p_value = vs ! 0, p_fit = True,
               p_changed = False, p_kind = Rotation (0, - 1, 0) (0, 0, 0)\<rparr>,
              \<lparr>p_name = ''mu'', p_min = - pi, p_max = pi, p_value = vs ! 1, p_fit = True,
               p_changed = False, p_kind = Rotation (0, 0, 1) (0, 0, 0)\<rparr>,
              \<lparr>p_name = ''omega'', p_min = - pi, p_max = pi, p_value = vs ! 2, p_fit = True,
               p_changed = False, p_kind = Rotation (0, - 1, 0) (0, 0, 0)\<rparr>,
              \<lparr>p_name = ''gamma'', p_min = - pi, p_max = pi, p_value = vs ! 3, p_fit = True,
               p_changed = False, p_kind = Rotation (0, 0, 1) (0, 0, 0)\<rparr>,
              \<lparr>p_name = ''delta'', p_min = - pi, p_max = pi, p_value = vs ! 4, p_fit = True,
               p_changed = False, p_kind = Rotation (0, - 1, 0) (0, 0, 0)\<rparr>,
              \<lparr>p_name = ''eta_a'', p_min = - pi, p_max = pi, p_value = vs ! 5, p_fit = True,
               p_changed = False, p_kind = Rotation (- 1, 0, 0) (0, 0, 0)\<rparr>],
      holders = [\<lparr>h_idx = [0, 1, 2], h_q = (1, 0, 0, 0)\<rparr>,
                 \<lparr>h_idx = [0, 3, 4, 5], h_q = (1, 0, 0, 0)\<rparr>]\<rparr>"

text \<open>
  That geometry as \<^verbatim>\<open>hkl_geometry_update\<close> leaves it when the slit axis eta\_a is at \<open>v\<close>
  and every other axis at \<open>0\<close>: the detector holder has the quaternion of eta\_a.
\<close>

definition sixs_med_2_3_slits :: "real \<Rightarrow> HklGeometry" where
  "sixs_med_2_3_slits v =
     (sixs_med_2_3 [0, 0, 0, 0, 0, v])
       \<lparr>holders := [\<lparr>h_idx = [0, 1, 2], h_q = (1, 0, 0, 0)\<rparr>,
                    \<lparr>h_idx = [0, 3, 4, 5], h_q = (cos (v / 2), - sin (v / 2), 0, 0)\<rparr>]\<rparr>"

section \<open>Axis insertion\<close>

lemma add_axis_loop_first:
  assumes "i < length ps"
    and "p_name (ps ! i) = p_name a"
    and "\<forall>j<i. p_name (ps ! j) \<noteq> p_name a"
  shows "add_axis_loop ps a k =
           (if hkl_parameter_transformation_cmp (ps ! i) a \<noteq> 0
            then Some (Inl (EXIT 128)) else Some (Inr (k + i)))"
  using assms
proof (induction ps arbitrary: i k)
  case Nil
  then show ?case by simp
next
  case (Cons p ps)
  show ?case
  proof (cases i)
    case 0
    with Cons.prems show ?thesis by simp
  next
    case (Suc n)
    from Cons.prems Suc have head: "p_name p \<noteq> p_name a" by auto
    from Cons.prems Suc have n: "n < length ps" "p_name (ps ! n) = p_name a"
      "\<forall>j<n. p_name (ps ! j) \<noteq> p_name a" by auto
    from Cons.IH [OF n, of "k + 1"] head Suc show ?thesis by simp
  qed
qed

lemma add_axis_loop_absent:
  "\<forall>p \<in> set ps. p_name p \<noteq> p_name a \<Longrightarrow> add_axis_loop ps a k = None"
  by (induction ps arbitrary: k) auto

text \<open>
  Claim C6. When the name of the axis being added is already in the geometry, first at
  index \<open>i\<close>, \<^verbatim>\<open>hkl_geometry_add_axis\<close> returns \<open>i\<close> and leaves the geometry as it is
  (no new entry) if the stored parameter and the new one have the same transformation,
  and ends the process with \<^verbatim>\<open>exit(128)\<close> if the transformations differ. Adding the
  axis once more after a successful insertion therefore gives the same index and the
  same geometry.
\<close>

theorem hkl_geometry_add_axis_existing_name:
  assumes "i < length (axes g)"
    and "p_name (axes g ! i) = p_name a"
    and "\<forall>j<i. p_name (axes g ! j) \<noteq> p_name a"
  shows "hkl_geometry_add_axis g a =
           (if p_kind (axes g ! i) = p_kind a then Inr (i, g) else Inl (EXIT 128))"
proof -
  have "add_axis_loop (axes g) a 0 =
          (if hkl_parameter_transformation_cmp (axes g ! i) a \<noteq> 0
           then Some (Inl (EXIT 128)) else Some (Inr (0 + i)))"
    using assms by (rule add_axis_loop_first)
  then show ?thesis
    by (simp add: hkl_geometry_add_axis_def hkl_parameter_transformation_cmp_def)
qed

text \<open>
  Example data: the \<^verbatim>\<open>omega\<close> rotation of the four-circle geometries, as
  \<^verbatim>\<open>hkl_holder_add_rotation(h, OMEGA, 0, -1, 0, ...)\<close> creates it, and a geometry
  holding it.
\<close>

theorem hkl_geometry_add_axis_existing_name_witness:
  "hkl_geometry_add_axis
     \<lparr>wave_length = 1.54,
      axes = [\<lparr>p_name = ''omega'', p_min = - pi, p_max = pi, p_value = 0, p_fit = True,
               p_changed = True, p_kind = Rotation (0, - 1, 0) (0, 0, 0)\<rparr>],
      holders = []\<rparr>
     \<lparr>p_name = ''omega'', p_min = - pi, p_max = pi, p_value = 0, p_fit = True,
      p_changed = True, p_kind = Rotation (0, - 1, 0) (0, 0, 0)\<rparr>
   = Inr (0,
     \<lparr>wave_length = 1.54,
      axes = [\<lparr>p_name = ''omega'', p_min = - pi, p_max = pi, p_value = 0, p_fit = True,
               p_changed = True, p_kind = Rotation (0, - 1, 0) (0, 0, 0)\<rparr>],
      holders = []\<rparr>)"
  using hkl_geometry_add_axis_existing_name [of 0
     "\<lparr>wave_length = 1.54,
      axes = [\<lparr>p_name = ''omega'', p_min = - pi, p_max = pi, p_value = 0, p_fit = True,
               p_changed = True, p_kind = Rotation (0, - 1, 0) (0, 0, 0)\<rparr>],
      holders = []\<rparr>"
     "\<lparr>p_name = ''omega'', p_min = - pi, p_max = pi, p_value = 0, p_fit = True,
      p_changed = True, p_kind = Rotation (0, - 1, 0) (0, 0, 0)\<rparr>"]
  by simp

section \<open>Wavelength\<close>

text \<open>
  Claim C5, as the code has it. \<^verbatim>\<open>hkl_geometry_wavelength_set\<close> has no test on the
  sign of the wavelength: called with an unset error slot it returns \<^verbatim>\<open>TRUE\<close> for
  every wavelength, changes nothing but \<^verbatim>\<open>source.wave_length\<close>, and
  \<^verbatim>\<open>hkl_geometry_wavelength_get\<close> then returns exactly the value that was set.
\<close>

theorem hkl_geometry_wavelength_set_get:
  assumes "error_unset error"
  shows "hkl_geometry_wavelength_set g w error = Inr (g\<lparr>wave_length := w\<rparr>)
         \<and> hkl_geometry_wavelength_get (g\<lparr>wave_length := w\<rparr>) = w"
  using assms by (simp add: hkl_geometry_wavelength_set_def hkl_geometry_wavelength_get_def)

theorem hkl_geometry_wavelength_set_get_witness:
  "hkl_geometry_wavelength_set \<lparr>wave_length = 1.54, axes = [], holders = []\<rparr> 1 NoSlot
     = Inr \<lparr>wave_length = 1, axes = [], holders = []\<rparr>
   \<and> hkl_geometry_wavelength_get \<lparr>wave_length = 1, axes = [], holders = []\<rparr> = 1"
  using hkl_geometry_wavelength_set_get
          [of NoSlot "\<lparr>wave_length = 1.54, axes = [], holders = []\<rparr>" 1]
  by simp

text \<open>
  The claim as stated fails: the wavelength \<open>-1\<close> is accepted and stored, where the
  claim has the call fail and the stored \<open>1.54\<close> stay.
\<close>

theorem hkl_geometry_wavelength_set_negative:
  "hkl_geometry_wavelength_set \<lparr>wave_length = 1.54, axes = [], holders = []\<rparr> (- 1) NoSlot
     = Inr \<lparr>wave_length = - 1, axes = [], holders = []\<rparr>
   \<and> hkl_geometry_wavelength_get \<lparr>wave_length = - 1, axes = [], holders = []\<rparr> = - 1"
  by (simp add: hkl_geometry_wavelength_set_def hkl_geometry_wavelength_get_def)

section \<open>Forward computation of q\<close>

text \<open>
  Claim C9. For a wavelength \<open>\<lambda> > 0\<close>, \<^verbatim>\<open>get_q_real\<close> returns \<^verbatim>\<open>TRUE\<close> and stores
  \<open>q = (2 \<tau> / \<lambda>) sin \<theta>\<close> in the pseudo-axis, where \<open>\<theta>\<close> is half the angle between
  \<open>ki\<close> and \<open>kf\<close>, negated exactly when the second or the third component of \<open>kf\<close>
  is negative; nothing else of the pseudo-axis changes.
\<close>

theorem get_q_real_value:
  assumes "0 < wave_length geometry"
    and "ki_get geometry = ki"
    and "kf_get geometry detector = (kf_x, kf_y, kf_z)"
    and "theta = (if kf_y < 0 \<or> kf_z < 0 then - (angle ki (kf_x, kf_y, kf_z) / 2)
                  else angle ki (kf_x, kf_y, kf_z) / 2)"
  shows "get_q_real tau angle ki_get kf_get q geometry detector
           = (True, q\<lparr>p_value := (2 * tau / wave_length geometry) * sin theta\<rparr>)"
  using assms by (simp add: get_q_real_def qmax_def Let_def)

theorem get_q_real_value_witness:
  "get_q_real 1 (\<lambda>a b. pi) (\<lambda>g. (1, 0, 0)) (\<lambda>g d. (0, - 1, 0))
     \<lparr>p_name = ''q'', p_min = 0, p_max = 1, p_value = 0, p_fit = True,
      p_changed = False, p_kind = Scalar\<rparr>
     \<lparr>wave_length = 2, axes = [], holders = []\<rparr> ()
   = (True, \<lparr>p_name = ''q'', p_min = 0, p_max = 1, p_value = - 1, p_fit = True,
             p_changed = False, p_kind = Scalar\<rparr>)"
  using get_q_real_value
          [of "\<lparr>wave_length = 2, axes = [], holders = []\<rparr>" "\<lambda>g. (1, 0, 0)" "(1, 0, 0)"
              "\<lambda>g d. (0, - 1, 0)" "()" 0 "- 1" 0 "- (pi / 2)" "\<lambda>a b. pi" 1
              "\<lparr>p_name = ''q'', p_min = 0, p_max = 1, p_value = 0, p_fit = True,
                p_changed = False, p_kind = Scalar\<rparr>"]
  by simp

section \<open>Holder quaternion\<close>

lemma holder_update_loop_product:
  "holder_update_loop as idx q =
     foldl hkl_quaternion_times_quaternion q
       (List.map_filter (\<lambda>i. hkl_parameter_quaternion_get (as ! i)) idx)"
  by (induction idx arbitrary: q) (auto simp: List.map_filter_simps split: option.split)

text \<open>
  Claim C2, at a holder whose first parameter is a translation and whose second is a
  rotation by \<open>\<pi>\<close> around \<open>(1,0,0)\<close>. The loop of \<^verbatim>\<open>hkl_holder_update\<close> skips the
  translation and goes on: the rotation after it is multiplied into the cached
  quaternion, which becomes \<open>(0,1,0,0)\<close> and not the \<open>(1,0,0,0)\<close> that stopping at the
  translation gives.
\<close>

theorem hkl_holder_update_after_translation:
  "hkl_holder_update
     \<lparr>wave_length = 1.54,
      axes = [\<lparr>p_name = ''tx'', p_min = - 10, p_max = 10, p_value = 5, p_fit = True,
               p_changed = True, p_kind = Translation (1, 0, 0)\<rparr>,
              \<lparr>p_name = ''omega'', p_min = - pi, p_max = pi, p_value = pi, p_fit = True,
               p_changed = True, p_kind = Rotation (1, 0, 0) (0, 0, 0)\<rparr>],
      holders = [\<lparr>h_idx = [0, 1], h_q = (1, 0, 0, 0)\<rparr>]\<rparr>
     \<lparr>h_idx = [0, 1], h_q = (1, 0, 0, 0)\<rparr>
   = \<lparr>h_idx = [0, 1], h_q = (0, 1, 0, 0)\<rparr>"
  by (simp add: hkl_holder_update_def)

section \<open>Lattice check, volume and B matrix\<close>











lemma hkl_lattice_get_B_false:
  "\<not> fst (hkl_lattice_get_B M tau L B0) \<Longrightarrow> snd (hkl_lattice_get_B M tau L B0) = B0"
  by (auto simp: hkl_lattice_get_B_def Let_def split: if_splits)














section \<open>Sorting the geometry list\<close>

lemma sort_find_p_rec:
  assumes "p < length idx \<and> d ! (idx ! p) < d ! x \<and> \<bar>d ! (idx ! p) - d ! x\<bar> > eps"
  shows "sort_find_p eps d idx x p = sort_find_p eps d idx x (p + 1)"
  by (subst sort_find_p.simps, rule if_P, rule assms)

lemma sort_find_p_stop:
  assumes "\<not> (p < length idx \<and> d ! (idx ! p) < d ! x \<and> \<bar>d ! (idx ! p) - d ! x\<bar> > eps)"
  shows "sort_find_p eps d idx x p = p"
  by (subst sort_find_p.simps, rule if_not_P, rule assms)

lemma sort_find_p_ge: "p \<le> sort_find_p eps d idx x p"
proof (induction eps d idx x p rule: sort_find_p.induct)
  case (1 eps d idx x p)
  show ?case
  proof (cases "p < length idx \<and> d ! (idx ! p) < d ! x \<and> \<bar>d ! (idx ! p) - d ! x\<bar> > eps")
    case True
    from "1.IH" [OF True] have "p + 1 \<le> sort_find_p eps d idx x (p + 1)" .
    then show ?thesis unfolding sort_find_p_rec [OF True] by linarith
  next
    case False
    show ?thesis unfolding sort_find_p_stop [OF False] by simp
  qed
qed

lemma sort_find_p_before:
  "p \<le> q \<Longrightarrow> q < sort_find_p eps d idx x p \<Longrightarrow>
   d ! (idx ! q) < d ! x \<and> \<bar>d ! (idx ! q) - d ! x\<bar> > eps"
proof (induction eps d idx x p rule: sort_find_p.induct)
  case (1 eps d idx x p)
  show ?case
  proof (cases "p < length idx \<and> d ! (idx ! p) < d ! x \<and> \<bar>d ! (idx ! p) - d ! x\<bar> > eps")
    case True
    note eq = sort_find_p_rec [OF True]
    show ?thesis
    proof (cases "q = p")
      case qp: True
      from True show ?thesis unfolding qp by blast
    next
      case False
      with "1.prems" have "p + 1 \<le> q" by linarith
      moreover from "1.prems"(2) have "q < sort_find_p eps d idx x (p + 1)"
        unfolding eq .
      ultimately show ?thesis by (rule "1.IH" [OF True])
    qed
  next
    case False
    from "1.prems" show ?thesis unfolding sort_find_p_stop [OF False] by linarith
  qed
qed

lemma sort_find_p_at:
  "\<not> (sort_find_p eps d idx x p < length idx
       \<and> d ! (idx ! sort_find_p eps d idx x p) < d ! x
       \<and> \<bar>d ! (idx ! sort_find_p eps d idx x p) - d ! x\<bar> > eps)"
proof (induction eps d idx x p rule: sort_find_p.induct)
  case (1 eps d idx x p)
  show ?case
  proof (cases "p < length idx \<and> d ! (idx ! p) < d ! x \<and> \<bar>d ! (idx ! p) - d ! x\<bar> > eps")
    case True
    from "1.IH" [OF True] show ?thesis unfolding sort_find_p_rec [OF True] .
  next
    case False
    then show ?thesis unfolding sort_find_p_stop [OF False] .
  qed
qed

lemma sort_find_p_le:
  assumes "p \<le> i" "idx ! i = x"
  shows "sort_find_p eps d idx x p \<le> i"
proof (rule ccontr)
  assume "\<not> sort_find_p eps d idx x p \<le> i"
  then have "i < sort_find_p eps d idx x p" by simp
  with assms(1) have "d ! (idx ! i) < d ! x" using sort_find_p_before by blast
  with assms(2) show False by simp
qed

lemma sort_shift_length: "length (sort_shift idx j p) = length idx"
proof (induction idx j p rule: sort_shift.induct)
  case (1 idx j p)
  show ?case
  proof (cases "j \<ge> int p")
    case True
    with 1 show ?thesis by (subst sort_shift.simps) simp
  next
    case False
    then show ?thesis by (subst sort_shift.simps) simp
  qed
qed

lemma sort_shift_nth:
  "nat (j + 1) < length idx \<Longrightarrow> - 1 \<le> j \<Longrightarrow> k < length idx \<Longrightarrow>
   sort_shift idx j p ! k = (if p < k \<and> int k \<le> j + 1 then idx ! (k - 1) else idx ! k)"
proof (induction idx j p arbitrary: k rule: sort_shift.induct)
  case (1 idx j p)
  show ?case
  proof (cases "j \<ge> int p")
    case True
    let ?idx' = "idx[nat (j + 1) := idx ! nat j]"
    have eq: "sort_shift idx j p = sort_shift ?idx' (j - 1) p"
      using True by (subst sort_shift.simps) simp
    have "sort_shift ?idx' (j - 1) p ! k =
            (if p < k \<and> int k \<le> j - 1 + 1 then ?idx' ! (k - 1) else ?idx' ! k)"
      using True "1.prems" by (intro "1.IH") auto
    also have "\<dots> = (if p < k \<and> int k \<le> j + 1 then idx ! (k - 1) else idx ! k)"
    proof (cases "int k = j + 1")
      case eq: True
      then have "nat j = k - 1" "nat (j + 1) = k" "p < k" "\<not> int k \<le> j - 1 + 1"
        using True by linarith+
      with "1.prems" show ?thesis by (simp add: eq)
    next
      case False
      then have ne: "nat (j + 1) \<noteq> k" using "1.prems" by linarith
      show ?thesis
      proof (cases "p < k \<and> int k \<le> j")
        case lt: True
        then have "nat (j + 1) \<noteq> k - 1" "int k \<le> j + 1" "int k \<le> j - 1 + 1" by linarith+
        with lt show ?thesis by (simp add: nth_list_update)
      next
        case ge: False
        with False have c1: "\<not> (p < k \<and> int k \<le> j + 1)"
          and c2: "\<not> (p < k \<and> int k \<le> j - 1 + 1)"
          by linarith+
        show ?thesis unfolding if_not_P [OF c1] if_not_P [OF c2]
          using ne by (simp add: nth_list_update)
      qed
    qed
    finally show ?thesis using eq by simp
  next
    case False
    then have "sort_shift idx j p = idx" by (subst sort_shift.simps) simp
    moreover from False have "\<not> (p < k \<and> int k \<le> j + 1)" by linarith
    ultimately show ?thesis by (simp only: if_not_P if_False)
  qed
qed

lemma shift_insert_eq:
  assumes "p \<le> i" "i < length xs" "length ys = length xs"
    and "\<And>k. k < length xs \<Longrightarrow>
           ys ! k = (if k = p then xs ! i else if p < k \<and> k \<le> i then xs ! (k - 1) else xs ! k)"
  shows "ys = take p (take i xs) @ [xs ! i] @ drop p (take i xs) @ drop (Suc i) xs"
proof (rule nth_equalityI)
  show "length ys = length (take p (take i xs) @ [xs ! i] @ drop p (take i xs) @ drop (Suc i) xs)"
    using assms(1-3) by simp
next
  fix k assume "k < length ys"
  then have k: "k < length xs" using assms(3) by simp
  consider "k < p" | "k = p" | "p < k" "k \<le> i" | "i < k" by linarith
  then show "ys ! k = (take p (take i xs) @ [xs ! i] @ drop p (take i xs) @ drop (Suc i) xs) ! k"
  proof cases
    case 1
    with assms(1,2) k show ?thesis by (simp add: assms(4) nth_append)
  next
    case 2
    with assms(1,2) k show ?thesis by (simp add: assms(4) nth_append)
  next
    case 3
    then have "k - Suc p < i - p" by linarith
    with 3 assms(1,2) k show ?thesis
      by (simp add: assms(4) nth_append nth_Cons')
  next
    case 4
    then have a: "k - Suc p - (i - p) + Suc i = k" using assms(1) by linarith
    from 4 assms(1) have b: "\<not> k - Suc p < i - p" by linarith
    from 4 assms(1,2) k a b show ?thesis
      by (simp add: assms(4) nth_append nth_Cons' add.commute)
  qed
qed

lemma sort_step_eq:
  fixes eps :: real and d :: "real list" and idx :: "nat list" and i :: nat
  defines "p \<equiv> sort_find_p eps d idx (idx ! i) 0"
  assumes "i < length idx"
  shows "sort_step eps d idx i
           = take p (take i idx) @ [idx ! i] @ drop p (take i idx) @ drop (Suc i) idx"
    and "p \<le> i"
proof -
  show pi: "p \<le> i" unfolding p_def by (rule sort_find_p_le) simp_all
  have step: "sort_step eps d idx i = (sort_shift idx (int i - 1) p)[p := idx ! i]"
    by (simp add: sort_step_def p_def Let_def)
  show "sort_step eps d idx i
           = take p (take i idx) @ [idx ! i] @ drop p (take i idx) @ drop (Suc i) idx"
  proof (rule shift_insert_eq [OF pi assms(2)])
    show "length (sort_step eps d idx i) = length idx"
      by (simp add: step sort_shift_length)
  next
    fix k assume k: "k < length idx"
    have "sort_shift idx (int i - 1) p ! k
            = (if p < k \<and> int k \<le> int i - 1 + 1 then idx ! (k - 1) else idx ! k)"
      using assms(2) k by (intro sort_shift_nth) auto
    then show "sort_step eps d idx i ! k
        = (if k = p then idx ! i else if p < k \<and> k \<le> i then idx ! (k - 1) else idx ! k)"
      using k pi assms(2) by (simp add: step nth_list_update sort_shift_length)
  qed
qed

lemma insert_successively:
  fixes f :: "nat \<Rightarrow> real"
  assumes eps: "0 \<le> eps"
    and sorted: "successively (\<lambda>a b. a \<le> b + eps) (map f pre)"
    and p: "p \<le> length pre"
    and before: "\<And>q. q < p \<Longrightarrow> f (pre ! q) < f x"
    and at: "p < length pre \<Longrightarrow> \<not> (f (pre ! p) < f x \<and> \<bar>f (pre ! p) - f x\<bar> > eps)"
  shows "successively (\<lambda>a b. a \<le> b + eps) (map f (take p pre @ [x] @ drop p pre))"
proof -
  let ?R = "\<lambda>a b. a \<le> b + eps"
  have split: "map f pre = map f (take p pre) @ map f (drop p pre)"
    by (metis append_take_drop_id map_append)
  from sorted have A: "successively ?R (map f (take p pre))"
    and B: "successively ?R (map f (drop p pre))"
    unfolding split by (simp_all add: successively_append_iff)
  have xB: "successively ?R (f x # map f (drop p pre))"
  proof (cases "drop p pre")
    case Nil
    then show ?thesis by simp
  next
    case (Cons y ys)
    then have lt: "p < length pre" by (metis drop_all list.distinct(1) not_le)
    then have "y = pre ! p" using Cons by (metis Cons_nth_drop_Suc list.inject)
    with at [OF lt] eps have "f x \<le> f y + eps" by (cases "f y < f x") auto
    with B Cons show ?thesis by simp
  qed
  have Ax: "take p pre \<noteq> [] \<Longrightarrow> f (last (take p pre)) \<le> f x + eps"
  proof -
    assume ne: "take p pre \<noteq> []"
    then have "0 < p" by (cases p) auto
    then have "last (take p pre) = pre ! (p - 1)" using p ne
      by (simp add: last_conv_nth min_def)
    moreover have "f (pre ! (p - 1)) < f x" using \<open>0 < p\<close> by (intro before) simp
    ultimately show ?thesis using eps by simp
  qed
  show ?thesis
  proof (cases "take p pre = []")
    case True
    show ?thesis unfolding True using xB by simp
  next
    case False
    with Ax have "f (last (take p pre)) \<le> f x + eps" by simp
    moreover have "last (map f (take p pre)) = f (last (take p pre))"
      using False by (simp add: last_map)
    ultimately show ?thesis using A xB False by (simp add: successively_append_iff)
  qed
qed

lemma sort_step_inv:
  assumes eps: "0 \<le> eps" and inv: "sort_inv eps d idx i" and i: "i < length d"
  shows "sort_inv eps d (sort_step eps d idx i) (Suc i)"
proof -
  define p where "p = sort_find_p eps d idx (idx ! i) 0"
  define pre where "pre = take i idx"
  from inv have len: "length idx = length d" and ms: "mset idx = mset [0..<length d]"
    and suffix: "drop i idx = [i..<length d]"
    and sorted: "successively (\<lambda>a b. a \<le> b + eps) (map (\<lambda>k. d ! k) pre)"
    by (simp_all add: sort_inv_def pre_def)
  from i len have il: "i < length idx" by simp
  have eq: "sort_step eps d idx i = take p pre @ [idx ! i] @ drop p pre @ drop (Suc i) idx"
    and pi: "p \<le> i"
    using sort_step_eq [OF il, of eps d] by (simp_all add: p_def pre_def)
  have lpre: "length pre = i" using il by (simp add: pre_def)
  have idx_split: "idx = pre @ [idx ! i] @ drop (Suc i) idx"
    unfolding pre_def using il by (simp add: id_take_nth_drop [symmetric])
  have pre_split: "pre = take p pre @ drop p pre" by simp
  have new_len: "length (sort_step eps d idx i) = length d"
    using il pi len lpre by (simp add: eq)
  have new_ms: "mset (sort_step eps d idx i) = mset [0..<length d]"
  proof -
    have "mset (sort_step eps d idx i) = mset (take p pre) + mset (drop p pre)
            + {#idx ! i#} + mset (drop (Suc i) idx)"
      by (simp add: eq)
    also have "mset (take p pre) + mset (drop p pre) = mset pre"
      by (metis append_take_drop_id mset_append)
    also have "mset pre + {#idx ! i#} + mset (drop (Suc i) idx)
                 = mset (pre @ [idx ! i] @ drop (Suc i) idx)" by simp
    also have "\<dots> = mset idx" using idx_split by simp
    finally show ?thesis using ms by simp
  qed
  have L: "length (take p pre @ [idx ! i] @ drop p pre) = Suc i" using pi lpre by simp
  have eq': "(take p pre @ [idx ! i] @ drop p pre) @ drop (Suc i) idx = sort_step eps d idx i"
    by (simp add: eq)
  have new_take: "take (Suc i) (sort_step eps d idx i) = take p pre @ [idx ! i] @ drop p pre"
    using eq' L by (metis append_eq_conv_conj)
  have new_drop: "drop (Suc i) (sort_step eps d idx i) = [Suc i..<length d]"
  proof -
    have "drop (Suc i) (sort_step eps d idx i) = drop (Suc i) idx"
      using eq' L by (metis append_eq_conv_conj)
    also have "\<dots> = drop 1 (drop i idx)" by simp
    also have "\<dots> = [Suc i..<length d]" unfolding suffix using i by (simp add: drop_upt)
    finally show ?thesis .
  qed
  have new_sorted: "successively (\<lambda>a b. a \<le> b + eps)
                      (map (\<lambda>k. d ! k) (take p pre @ [idx ! i] @ drop p pre))"
  proof (rule insert_successively [OF eps sorted])
    show "p \<le> length pre" using pi lpre by simp
  next
    fix q assume q: "q < p"
    then have "pre ! q = idx ! q" using pi by (simp add: pre_def)
    moreover have "d ! (idx ! q) < d ! (idx ! i)"
      using sort_find_p_before [of 0 q eps d idx "idx ! i"] q by (simp add: p_def)
    ultimately show "d ! (pre ! q) < d ! (idx ! i)" by simp
  next
    assume "p < length pre"
    then have "pre ! p = idx ! p" using lpre by (simp add: pre_def)
    moreover have "\<not> (d ! (idx ! p) < d ! (idx ! i) \<and> \<bar>d ! (idx ! p) - d ! (idx ! i)\<bar> > eps)"
      using sort_find_p_at [of eps d idx "idx ! i" 0] pi il unfolding p_def by auto
    ultimately show "\<not> (d ! (pre ! p) < d ! (idx ! i)
                        \<and> \<bar>d ! (pre ! p) - d ! (idx ! i)\<bar> > eps)" by simp
  qed
  show ?thesis
    unfolding sort_inv_def using new_len new_ms new_drop new_sorted i
    by (simp only: new_take) simp
qed

lemma sort_fold_inv:
  assumes eps: "0 \<le> eps"
  shows "sort_inv eps d idx i \<Longrightarrow>
         sort_inv eps d (foldl (sort_step eps d) idx [i..<length d]) (length d)"
proof (induction "length d - i" arbitrary: idx i)
  case 0
  then have "i = length d" by (simp add: sort_inv_def)
  with 0 show ?case by simp
next
  case (Suc n)
  then have i: "i < length d" by simp
  then have up: "[i..<length d] = i # [Suc i..<length d]" by (rule upt_conv_Cons)
  have "sort_inv eps d (sort_step eps d idx i) (Suc i)"
    using eps Suc.prems i by (rule sort_step_inv)
  moreover have "n = length d - Suc i" using Suc.hyps(2) by simp
  ultimately have "sort_inv eps d (foldl (sort_step eps d) (sort_step eps d idx i)
                     [Suc i..<length d]) (length d)"
    by (rule Suc.hyps(1) [rotated])
  then show ?case by (simp add: up)
qed

lemma idx_sort_inv:
  assumes eps: "0 \<le> eps"
  shows "sort_inv eps d (foldl (sort_step eps d) [0..<length d] [1..<length d]) (length d)"
proof (cases "length d")
  case 0
  then show ?thesis by (simp add: sort_inv_def)
next
  case (Suc n)
  have "sort_inv eps d [0..<length d] 1"
    using Suc by (simp add: sort_inv_def drop_upt upt_conv_Cons)
  from sort_fold_inv [OF eps this] show ?thesis .
qed

lemma sort_items_inv:
  fixes eps :: real and self :: HklGeometryList and ref :: HklGeometry
  defines "ds \<equiv> map (\<lambda>item. hkl_geometry_distance ref item) (items self)"
  defines "idx \<equiv> foldl (sort_step eps ds) [0..<length (items self)] [1..<length (items self)]"
  assumes "0 \<le> eps"
  shows "items (hkl_geometry_list_sort eps self ref) = map (\<lambda>k. items self ! k) idx"
    and "sort_inv eps ds idx (length (items self))"
proof -
  show "items (hkl_geometry_list_sort eps self ref) = map (\<lambda>k. items self ! k) idx"
    by (simp add: hkl_geometry_list_sort_def Let_def idx_def ds_def)
  have "length ds = length (items self)" by (simp add: ds_def)
  with idx_sort_inv [OF assms(3), of ds] show "sort_inv eps ds idx (length (items self))"
    by (simp add: idx_def)
qed

lemma sort_items_perm:
  assumes "0 \<le> eps"
  shows "\<exists>idx. items (hkl_geometry_list_sort eps self ref) = map (\<lambda>k. items self ! k) idx
          \<and> mset idx = mset [0..<length (items self)]"
  using sort_items_inv [OF assms, where self = self and ref = ref] by (auto simp: sort_inv_def)

lemma sort_items_mset:
  assumes "0 \<le> eps"
  shows "mset (items (hkl_geometry_list_sort eps self ref)) = mset (items self)"
proof -
  from sort_items_perm [OF assms, of self ref] obtain idx where
    eq: "items (hkl_geometry_list_sort eps self ref) = map (\<lambda>k. items self ! k) idx"
    and ms: "mset idx = mset [0..<length (items self)]" by blast
  have "mset (map (\<lambda>k. items self ! k) idx) = image_mset (\<lambda>k. items self ! k) (mset idx)"
    by simp
  also have "\<dots> = mset (map (\<lambda>k. items self ! k) [0..<length (items self)])"
    unfolding ms by simp
  also have "\<dots> = mset (items self)" by (simp add: map_nth)
  finally show ?thesis using eq by simp
qed

lemma successively_mono_set:
  assumes "successively P xs"
    and "\<And>x y. x \<in> set xs \<Longrightarrow> y \<in> set xs \<Longrightarrow> P x y \<Longrightarrow> Q x y"
  shows "successively Q xs"
  using assms by (induction xs rule: induct_list012) auto

lemma sort_inv_prefix:
  assumes "sort_inv eps d idx i"
  shows "set (take i idx) = {0..<i}"
proof -
  from assms have len: "length idx = length d" and i: "i \<le> length d"
    and ms: "mset idx = mset [0..<length d]" and suffix: "drop i idx = [i..<length d]"
    by (simp_all add: sort_inv_def)
  have "mset (take i idx) + mset (drop i idx) = mset idx"
    by (metis append_take_drop_id mset_append)
  also have "\<dots> = mset ([0..<i] @ [i..<length d])"
    unfolding ms using i by (metis le0 le_add_diff_inverse upt_add_eq_append)
  finally have "mset (take i idx) + mset [i..<length d] = mset [0..<i] + mset [i..<length d]"
    unfolding suffix by simp
  then have "mset (take i idx) = mset [0..<i]" by simp
  then show ?thesis by (metis mset_eq_setD set_upt)
qed

lemma sort_inv_nth:
  assumes "sort_inv eps d idx i" and "i < length d"
  shows "idx ! i = i"
proof -
  from assms have len: "length idx = length d" and suffix: "drop i idx = [i..<length d]"
    by (simp_all add: sort_inv_def)
  have "idx ! i = drop i idx ! 0" using assms(2) len by simp
  also have "\<dots> = i" unfolding suffix using assms(2) by simp
  finally show ?thesis .
qed

lemma sort_step_take:
  fixes eps :: real and d :: "real list" and idx :: "nat list" and i :: nat
  defines "p \<equiv> sort_find_p eps d idx (idx ! i) 0"
  assumes "i < length idx"
  shows "take (Suc i) (sort_step eps d idx i)
           = take p (take i idx) @ [idx ! i] @ drop p (take i idx)"
proof -
  note eq = sort_step_eq [OF assms(2), of eps d, folded p_def]
  have L: "length (take p (take i idx) @ [idx ! i] @ drop p (take i idx)) = Suc i"
    using eq(2) assms(2) by simp
  have "(take p (take i idx) @ [idx ! i] @ drop p (take i idx)) @ drop (Suc i) idx
          = sort_step eps d idx i"
    by (simp add: eq(1))
  with L show ?thesis by (metis append_eq_conv_conj)
qed

lemma sort_step_rev:
  assumes inv: "sort_inv eps d idx i" and i: "i < length d"
    and rev: "sort_rev eps d (take i idx)"
  shows "sort_rev eps d (take (Suc i) (sort_step eps d idx i))"
proof -
  define p where "p = sort_find_p eps d idx (idx ! i) 0"
  define pre where "pre = take i idx"
  let ?P = "\<lambda>u v. u < v \<longrightarrow> d ! u < d ! v \<and> \<bar>d ! u - d ! v\<bar> > eps"
  from inv have len: "length idx = length d" by (simp add: sort_inv_def)
  with i have il: "i < length idx" by simp
  have x: "idx ! i = i" using inv i by (rule sort_inv_nth)
  have pre_set: "set pre = {0..<i}" unfolding pre_def using inv by (rule sort_inv_prefix)
  have pi: "p \<le> i" using sort_step_eq(2) [OF il, of eps d] by (simp add: p_def)
  have tk: "take (Suc i) (sort_step eps d idx i) = take p pre @ [i] @ drop p pre"
    using sort_step_take [OF il, of eps d] by (simp add: p_def pre_def x)
  from rev have "sorted_wrt ?P pre" by (simp add: sort_rev_def pre_def)
  then have "sorted_wrt ?P (take p pre @ drop p pre)" by (simp only: append_take_drop_id)
  then have A: "sorted_wrt ?P (take p pre)" and B: "sorted_wrt ?P (drop p pre)"
    and C: "\<forall>u \<in> set (take p pre). \<forall>v \<in> set (drop p pre). ?P u v"
    unfolding sorted_wrt_append by blast+
  have before: "\<forall>u \<in> set (take p pre). ?P u i"
  proof
    fix u assume "u \<in> set (take p pre)"
    then obtain q where q: "q < p" "q < length pre" and u: "u = pre ! q"
      by (auto simp: in_set_conv_nth)
    from q pi have pq: "pre ! q = idx ! q" by (simp add: pre_def)
    have "d ! (idx ! q) < d ! (idx ! i) \<and> \<bar>d ! (idx ! q) - d ! (idx ! i)\<bar> > eps"
      using sort_find_p_before [OF le0 q(1) [unfolded p_def]] .
    then have "d ! (pre ! q) < d ! i \<and> \<bar>d ! (pre ! q) - d ! i\<bar> > eps"
      unfolding x pq .
    then show "?P u i" unfolding u by blast
  qed
  have after: "\<forall>v \<in> set (drop p pre). ?P i v"
  proof
    fix v assume "v \<in> set (drop p pre)"
    then have "v \<in> set pre" by (rule in_set_dropD)
    with pre_set have "v < i" by simp
    then show "?P i v" by simp
  qed
  show ?thesis
    unfolding sort_rev_def tk using A B C before after
    by (simp add: sorted_wrt_append)
qed

lemma sort_fold_rev:
  assumes eps: "0 \<le> eps"
  shows "sort_inv eps d idx i \<Longrightarrow> sort_rev eps d (take i idx) \<Longrightarrow>
         sort_rev eps d (foldl (sort_step eps d) idx [i..<length d])"
proof (induction "length d - i" arbitrary: idx i)
  case 0
  then have "i = length d" and "length idx = length d" by (simp_all add: sort_inv_def)
  with 0 show ?case by simp
next
  case (Suc n)
  then have i: "i < length d" by simp
  then have up: "[i..<length d] = i # [Suc i..<length d]" by (rule upt_conv_Cons)
  have inv': "sort_inv eps d (sort_step eps d idx i) (Suc i)"
    using eps Suc.prems(1) i by (rule sort_step_inv)
  have rev': "sort_rev eps d (take (Suc i) (sort_step eps d idx i))"
    using Suc.prems(1) i Suc.prems(2) by (rule sort_step_rev)
  have "n = length d - Suc i" using Suc.hyps(2) by simp
  from Suc.hyps(1) [OF this inv' rev'] show ?case by (simp add: up)
qed

lemma idx_sort_rev:
  assumes eps: "0 \<le> eps"
  shows "sort_rev eps d (foldl (sort_step eps d) [0..<length d] [1..<length d])"
proof (cases "length d")
  case 0
  then show ?thesis by (simp add: sort_rev_def)
next
  case (Suc n)
  have inv: "sort_inv eps d [0..<length d] 1"
    using Suc by (simp add: sort_inv_def drop_upt upt_conv_Cons)
  have "[0..<length d] = 0 # [Suc 0..<length d]" by (rule upt_conv_Cons) (simp add: Suc)
  then have "take 1 [0..<length d] = [0]" by simp
  then have "sort_rev eps d (take 1 [0..<length d])" by (simp add: sort_rev_def)
  from sort_fold_rev [OF eps inv this] show ?thesis .
qed

lemma sort_items_rev:
  fixes eps :: real and self :: HklGeometryList and ref :: HklGeometry
  defines "idx \<equiv> foldl (sort_step eps
                       (map (\<lambda>item. hkl_geometry_distance ref item) (items self)))
                     [0..<length (items self)] [1..<length (items self)]"
  assumes "0 \<le> eps"
  shows "sorted_wrt
           (\<lambda>u v. u < v \<longrightarrow>
               hkl_geometry_distance ref (items self ! u)
                 < hkl_geometry_distance ref (items self ! v)
             \<and> \<bar>hkl_geometry_distance ref (items self ! u)
                  - hkl_geometry_distance ref (items self ! v)\<bar> > eps) idx"
proof -
  define ds where "ds = map (\<lambda>item. hkl_geometry_distance ref item) (items self)"
  have l: "length ds = length (items self)" by (simp add: ds_def)
  from sort_items_inv(2) [OF assms(2), of ref self]
  have "mset idx = mset [0..<length (items self)]" by (simp add: sort_inv_def idx_def)
  then have "set idx = {0..<length (items self)}" by (metis mset_eq_setD set_upt)
  then have bound: "\<And>k. k \<in> set idx \<Longrightarrow> k < length (items self)" by simp
  from idx_sort_rev [OF assms(2), of ds] l
  have "sorted_wrt (\<lambda>u v. u < v \<longrightarrow> ds ! u < ds ! v \<and> \<bar>ds ! u - ds ! v\<bar> > eps) idx"
    by (simp add: sort_rev_def idx_def ds_def)
  then show ?thesis
    by (rule sorted_wrt_mono_rel [rotated]) (simp add: ds_def bound)
qed

lemma descending_permutation:
  assumes "mset idx = mset [0..<n]" and "sorted_wrt (\<lambda>u v. \<not> u < v) idx"
  shows "idx = rev [0..<n]"
proof -
  from assms(1) have s: "set idx = set [0..<n]" by (rule mset_eq_setD)
  from assms(1) have "distinct idx" by (metis distinct_upt mset_eq_imp_distinct_iff)
  then have d: "distinct (rev idx)" by simp
  from assms(2) have "sorted_wrt (\<lambda>u v. v \<le> u) idx"
    by (rule sorted_wrt_mono_rel [rotated]) simp
  then have "sorted_wrt (\<lambda>u v. u \<le> v) (rev idx)" by (simp add: sorted_wrt_rev)
  then have "sorted (rev idx)" by simp
  with d s have "rev idx = [0..<n]"
    by (intro sorted_distinct_set_unique) simp_all
  then show ?thesis by (metis rev_rev_ident)
qed

text \<open>
  Claim C8, as the code has it. For \<open>eps \<ge> 0\<close>, \<^verbatim>\<open>hkl_geometry_list_sort\<close> permutes
  the items, and afterwards the distance \<^verbatim>\<open>hkl_geometry_distance(ref, item)\<close> does not
  decrease by more than \<open>eps\<close> from one item to the next. Ties are not kept in their order
  before the sort: an item stands in front of an item that followed it before the sort
  only if its distance is smaller by more than \<open>eps\<close>, so two items whose distances are
  equal within \<open>eps\<close> come out in the reverse of their order before the sort; a list whose
  distances are all equal within \<open>eps\<close> comes out reversed.
\<close>

theorem hkl_geometry_list_sort_order:
  assumes "0 \<le> eps"
  shows "mset (items (hkl_geometry_list_sort eps self ref)) = mset (items self)
       \<and> successively
           (\<lambda>a b. hkl_geometry_distance ref a \<le> hkl_geometry_distance ref b + eps)
           (items (hkl_geometry_list_sort eps self ref))
       \<and> (\<exists>idx. items (hkl_geometry_list_sort eps self ref) = map (\<lambda>k. items self ! k) idx
              \<and> mset idx = mset [0..<length (items self)]
              \<and> sorted_wrt
                  (\<lambda>u v. u < v \<longrightarrow>
                      hkl_geometry_distance ref (items self ! u)
                        < hkl_geometry_distance ref (items self ! v)
                    \<and> \<bar>hkl_geometry_distance ref (items self ! u)
                         - hkl_geometry_distance ref (items self ! v)\<bar> > eps) idx
              \<and> (\<forall>u v. u < v \<and> v < length (items self)
                    \<and> \<bar>hkl_geometry_distance ref (items self ! u)
                         - hkl_geometry_distance ref (items self ! v)\<bar> \<le> eps
                    \<longrightarrow> (\<exists>p q. p < q \<and> q < length idx \<and> idx ! p = v \<and> idx ! q = u)))
       \<and> ((\<forall>a \<in> set (items self). \<forall>b \<in> set (items self).
              \<bar>hkl_geometry_distance ref a - hkl_geometry_distance ref b\<bar> \<le> eps)
            \<longrightarrow> items (hkl_geometry_list_sort eps self ref) = rev (items self))"
proof -
  define ds where "ds = map (\<lambda>item. hkl_geometry_distance ref item) (items self)"
  define idx where
    "idx = foldl (sort_step eps ds) [0..<length (items self)] [1..<length (items self)]"
  let ?far = "\<lambda>u v. u < v \<longrightarrow>
                      hkl_geometry_distance ref (items self ! u)
                        < hkl_geometry_distance ref (items self ! v)
                    \<and> \<bar>hkl_geometry_distance ref (items self ! u)
                         - hkl_geometry_distance ref (items self ! v)\<bar> > eps"
  have eq: "items (hkl_geometry_list_sort eps self ref) = map (\<lambda>k. items self ! k) idx"
    and inv: "sort_inv eps ds idx (length (items self))"
    using sort_items_inv [OF assms, where self = self and ref = ref] by (simp_all add: ds_def idx_def)
  from inv have len: "length idx = length (items self)"
    and ms: "mset idx = mset [0..<length (items self)]"
    by (simp_all add: sort_inv_def ds_def)
  from ms have "set idx = {0..<length (items self)}"
    by (metis mset_eq_setD set_upt)
  then have bound: "\<And>k. k \<in> set idx \<Longrightarrow> k < length (items self)" by simp
  have rv: "sorted_wrt ?far idx"
    using sort_items_rev [OF assms, of ref self] by (simp add: idx_def ds_def)
  have 1: "mset (items (hkl_geometry_list_sort eps self ref)) = mset (items self)"
    using assms by (rule sort_items_mset)
  have 2: "successively
           (\<lambda>a b. hkl_geometry_distance ref a \<le> hkl_geometry_distance ref b + eps)
           (items (hkl_geometry_list_sort eps self ref))"
  proof -
    from inv have "successively (\<lambda>a b. a \<le> b + eps)
                     (map (\<lambda>k. ds ! k) (take (length (items self)) idx))"
      by (simp add: sort_inv_def)
    with len have sorted: "successively (\<lambda>a b. a \<le> b + eps) (map (\<lambda>k. ds ! k) idx)"
      by simp
    from sorted have "successively (\<lambda>x y. ds ! x \<le> ds ! y + eps) idx"
      by (simp add: successively_map)
    then have "successively
                 (\<lambda>x y. hkl_geometry_distance ref (items self ! x)
                          \<le> hkl_geometry_distance ref (items self ! y) + eps) idx"
      by (rule successively_mono_set) (simp add: ds_def bound)
    then show ?thesis by (simp add: eq successively_map)
  qed
  have pairs: "\<forall>u v. u < v \<and> v < length (items self)
                    \<and> \<bar>hkl_geometry_distance ref (items self ! u)
                         - hkl_geometry_distance ref (items self ! v)\<bar> \<le> eps
                    \<longrightarrow> (\<exists>p q. p < q \<and> q < length idx \<and> idx ! p = v \<and> idx ! q = u)"
  proof (intro allI impI)
    fix u v
    assume h: "u < v \<and> v < length (items self)
                    \<and> \<bar>hkl_geometry_distance ref (items self ! u)
                         - hkl_geometry_distance ref (items self ! v)\<bar> \<le> eps"
    then have "u \<in> set idx" "v \<in> set idx"
      using \<open>set idx = {0..<length (items self)}\<close> by simp_all
    then obtain pu pv where pu: "pu < length idx" "idx ! pu = u"
      and pv: "pv < length idx" "idx ! pv = v"
      by (auto simp: in_set_conv_nth)
    from h pu pv have ne: "pu \<noteq> pv" by auto
    have "\<not> pu < pv"
    proof
      assume "pu < pv"
      with rv pv(1) have "?far (idx ! pu) (idx ! pv)"
        by (simp add: sorted_wrt_iff_nth_less)
      with h pu pv show False by auto
    qed
    with ne have "pv < pu" by simp
    with pu pv show "\<exists>p q. p < q \<and> q < length idx \<and> idx ! p = v \<and> idx ! q = u" by blast
  qed
  have 3: "\<exists>idx. items (hkl_geometry_list_sort eps self ref) = map (\<lambda>k. items self ! k) idx
              \<and> mset idx = mset [0..<length (items self)] \<and> sorted_wrt ?far idx
              \<and> (\<forall>u v. u < v \<and> v < length (items self)
                    \<and> \<bar>hkl_geometry_distance ref (items self ! u)
                         - hkl_geometry_distance ref (items self ! v)\<bar> \<le> eps
                    \<longrightarrow> (\<exists>p q. p < q \<and> q < length idx \<and> idx ! p = v \<and> idx ! q = u))"
    using eq ms rv pairs by blast
  have 4: "(\<forall>a \<in> set (items self). \<forall>b \<in> set (items self).
              \<bar>hkl_geometry_distance ref a - hkl_geometry_distance ref b\<bar> \<le> eps)
            \<longrightarrow> items (hkl_geometry_list_sort eps self ref) = rev (items self)"
  proof
    assume close: "\<forall>a \<in> set (items self). \<forall>b \<in> set (items self).
              \<bar>hkl_geometry_distance ref a - hkl_geometry_distance ref b\<bar> \<le> eps"
    have "sorted_wrt (\<lambda>u v. \<not> u < v) idx"
    proof (rule sorted_wrt_mono_rel [OF _ rv])
      fix u v assume "u \<in> set idx" "v \<in> set idx" and far: "?far u v"
      then have "items self ! u \<in> set (items self)" "items self ! v \<in> set (items self)"
        using bound by simp_all
      with close have "\<bar>hkl_geometry_distance ref (items self ! u)
                         - hkl_geometry_distance ref (items self ! v)\<bar> \<le> eps" by blast
      with far show "\<not> u < v" by auto
    qed
    from descending_permutation [OF ms this] have "idx = rev [0..<length (items self)]" .
    then have "map (\<lambda>k. items self ! k) idx = rev (map (\<lambda>k. items self ! k) [0..<length (items self)])"
      by (simp add: rev_map)
    also have "\<dots> = rev (items self)" by (simp add: map_nth)
    finally show "items (hkl_geometry_list_sort eps self ref) = rev (items self)"
      by (simp add: eq)
  qed
  from 1 2 3 4 show ?thesis by (intro conjI)
qed

lemmas sort_eval = hkl_geometry_list_sort_def Let_def hkl_geometry_distance_def
  single_axis_geometry_def translation_axis_def sort_step_def sort_find_p.simps
  sort_shift.simps upt_rec

theorem hkl_geometry_list_sort_order_witness:
  "mset (items (hkl_geometry_list_sort (1 / 1000000)
      \<lparr>items = [single_axis_geometry (translation_axis ''x'' (- 10) 3 10),
                single_axis_geometry (translation_axis ''x'' (- 10) 1 10),
                single_axis_geometry (translation_axis ''x'' (- 10) 2 10)]\<rparr>
      (single_axis_geometry (translation_axis ''x'' (- 10) 0 10))))
   = mset [single_axis_geometry (translation_axis ''x'' (- 10) 3 10),
           single_axis_geometry (translation_axis ''x'' (- 10) 1 10),
           single_axis_geometry (translation_axis ''x'' (- 10) 2 10)]
   \<and> successively
        (\<lambda>a b. hkl_geometry_distance (single_axis_geometry (translation_axis ''x'' (- 10) 0 10)) a
               \<le> hkl_geometry_distance (single_axis_geometry (translation_axis ''x'' (- 10) 0 10)) b
                   + 1 / 1000000)
        (items (hkl_geometry_list_sort (1 / 1000000)
      \<lparr>items = [single_axis_geometry (translation_axis ''x'' (- 10) 3 10),
                single_axis_geometry (translation_axis ''x'' (- 10) 1 10),
                single_axis_geometry (translation_axis ''x'' (- 10) 2 10)]\<rparr>
      (single_axis_geometry (translation_axis ''x'' (- 10) 0 10))))
   \<and> items (hkl_geometry_list_sort (1 / 1000000)
      \<lparr>items = [single_axis_geometry (translation_axis ''x'' (- 10) 3 10),
                single_axis_geometry (translation_axis ''x'' (- 10) 1 10),
                single_axis_geometry (translation_axis ''x'' (- 10) 2 10)]\<rparr>
      (single_axis_geometry (translation_axis ''x'' (- 10) 0 10)))
     = [single_axis_geometry (translation_axis ''x'' (- 10) 1 10),
        single_axis_geometry (translation_axis ''x'' (- 10) 2 10),
        single_axis_geometry (translation_axis ''x'' (- 10) 3 10)]
   \<and> items (hkl_geometry_list_sort (1 / 1000000)
      \<lparr>items = [single_axis_geometry (translation_axis ''x'' (- 10) 1 10),
                single_axis_geometry (translation_axis ''x'' (- 10) (- 1) 10)]\<rparr>
      (single_axis_geometry (translation_axis ''x'' (- 10) 0 10)))
     = rev [single_axis_geometry (translation_axis ''x'' (- 10) 1 10),
            single_axis_geometry (translation_axis ''x'' (- 10) (- 1) 10)]"
proof -
  have e: "(0::real) \<le> 1 / 1000000" by simp
  have r: "items (hkl_geometry_list_sort (1 / 1000000)
      \<lparr>items = [single_axis_geometry (translation_axis ''x'' (- 10) 3 10),
                single_axis_geometry (translation_axis ''x'' (- 10) 1 10),
                single_axis_geometry (translation_axis ''x'' (- 10) 2 10)]\<rparr>
      (single_axis_geometry (translation_axis ''x'' (- 10) 0 10)))
     = [single_axis_geometry (translation_axis ''x'' (- 10) 1 10),
        single_axis_geometry (translation_axis ''x'' (- 10) 2 10),
        single_axis_geometry (translation_axis ''x'' (- 10) 3 10)]"
    by (simp add: sort_eval)
  from hkl_geometry_list_sort_order [OF e,
      of "\<lparr>items = [single_axis_geometry (translation_axis ''x'' (- 10) 3 10),
                single_axis_geometry (translation_axis ''x'' (- 10) 1 10),
                single_axis_geometry (translation_axis ''x'' (- 10) 2 10)]\<rparr>"
         "single_axis_geometry (translation_axis ''x'' (- 10) 0 10)"] r
  have 1: "mset (items (hkl_geometry_list_sort (1 / 1000000)
      \<lparr>items = [single_axis_geometry (translation_axis ''x'' (- 10) 3 10),
                single_axis_geometry (translation_axis ''x'' (- 10) 1 10),
                single_axis_geometry (translation_axis ''x'' (- 10) 2 10)]\<rparr>
      (single_axis_geometry (translation_axis ''x'' (- 10) 0 10))))
   = mset [single_axis_geometry (translation_axis ''x'' (- 10) 3 10),
           single_axis_geometry (translation_axis ''x'' (- 10) 1 10),
           single_axis_geometry (translation_axis ''x'' (- 10) 2 10)]
   \<and> successively
        (\<lambda>a b. hkl_geometry_distance (single_axis_geometry (translation_axis ''x'' (- 10) 0 10)) a
               \<le> hkl_geometry_distance (single_axis_geometry (translation_axis ''x'' (- 10) 0 10)) b
                   + 1 / 1000000)
        (items (hkl_geometry_list_sort (1 / 1000000)
      \<lparr>items = [single_axis_geometry (translation_axis ''x'' (- 10) 3 10),
                single_axis_geometry (translation_axis ''x'' (- 10) 1 10),
                single_axis_geometry (translation_axis ''x'' (- 10) 2 10)]\<rparr>
      (single_axis_geometry (translation_axis ''x'' (- 10) 0 10))))"
    by simp
  have close: "\<forall>a \<in> set (items \<lparr>items = [single_axis_geometry (translation_axis ''x'' (- 10) 1 10),
                single_axis_geometry (translation_axis ''x'' (- 10) (- 1) 10)]\<rparr>).
        \<forall>b \<in> set (items \<lparr>items = [single_axis_geometry (translation_axis ''x'' (- 10) 1 10),
                single_axis_geometry (translation_axis ''x'' (- 10) (- 1) 10)]\<rparr>).
          \<bar>hkl_geometry_distance (single_axis_geometry (translation_axis ''x'' (- 10) 0 10)) a
            - hkl_geometry_distance (single_axis_geometry (translation_axis ''x'' (- 10) 0 10)) b\<bar>
          \<le> 1 / 1000000"
    by (simp add: hkl_geometry_distance_def single_axis_geometry_def translation_axis_def)
  from hkl_geometry_list_sort_order [OF e,
      of "\<lparr>items = [single_axis_geometry (translation_axis ''x'' (- 10) 1 10),
                single_axis_geometry (translation_axis ''x'' (- 10) (- 1) 10)]\<rparr>"
         "single_axis_geometry (translation_axis ''x'' (- 10) 0 10)",
      THEN conjunct2, THEN conjunct2, THEN conjunct2, THEN mp, OF close]
  have 2: "items (hkl_geometry_list_sort (1 / 1000000)
      \<lparr>items = [single_axis_geometry (translation_axis ''x'' (- 10) 1 10),
                single_axis_geometry (translation_axis ''x'' (- 10) (- 1) 10)]\<rparr>
      (single_axis_geometry (translation_axis ''x'' (- 10) 0 10)))
     = rev [single_axis_geometry (translation_axis ''x'' (- 10) 1 10),
            single_axis_geometry (translation_axis ''x'' (- 10) (- 1) 10)]"
    by simp
  note a = 1 [THEN conjunct1] and b = 1 [THEN conjunct2]
  from a b r 2 show ?thesis by (intro conjI)
qed

text \<open>
  The claim as stated fails. Two items at the same distance \<open>1\<close> from the reference
  come out in reverse order; and two items at distances \<open>1\<close> and \<open>1 + eps/2\<close> come out
  with the larger distance first.
\<close>

theorem hkl_geometry_list_sort_ties_reversed:
  "items (hkl_geometry_list_sort (1 / 1000000)
      \<lparr>items = [single_axis_geometry (translation_axis ''x'' (- 10) 1 10),
                single_axis_geometry (translation_axis ''x'' (- 10) (- 1) 10)]\<rparr>
      (single_axis_geometry (translation_axis ''x'' (- 10) 0 10)))
     = [single_axis_geometry (translation_axis ''x'' (- 10) (- 1) 10),
        single_axis_geometry (translation_axis ''x'' (- 10) 1 10)]
   \<and> hkl_geometry_distance (single_axis_geometry (translation_axis ''x'' (- 10) 0 10))
        (single_axis_geometry (translation_axis ''x'' (- 10) 1 10)) = 1
   \<and> hkl_geometry_distance (single_axis_geometry (translation_axis ''x'' (- 10) 0 10))
        (single_axis_geometry (translation_axis ''x'' (- 10) (- 1) 10)) = 1
   \<and> items (hkl_geometry_list_sort (1 / 1000000)
      \<lparr>items = [single_axis_geometry (translation_axis ''x'' (- 10) 1 10),
                single_axis_geometry (translation_axis ''x'' (- 10) (1 + 1 / 2000000) 10)]\<rparr>
      (single_axis_geometry (translation_axis ''x'' (- 10) 0 10)))
     = [single_axis_geometry (translation_axis ''x'' (- 10) (1 + 1 / 2000000) 10),
        single_axis_geometry (translation_axis ''x'' (- 10) 1 10)]
   \<and> hkl_geometry_distance (single_axis_geometry (translation_axis ''x'' (- 10) 0 10))
        (single_axis_geometry (translation_axis ''x'' (- 10) (1 + 1 / 2000000) 10))
       > hkl_geometry_distance (single_axis_geometry (translation_axis ''x'' (- 10) 0 10))
        (single_axis_geometry (translation_axis ''x'' (- 10) 1 10))"
  by (simp add: sort_eval)

section \<open>Separation of the items of a geometry list\<close>

lemma foldl_add_sum:
  fixes f :: "nat \<Rightarrow> real"
  shows "foldl (\<lambda>d i. d + f i) a xs = a + sum_list (map f xs)"
  by (induction xs arbitrary: a) auto

lemma angle_distance_sym: "angle_distance a b = angle_distance b a"
  by (simp add: angle_distance_def abs_minus_commute)

lemma orthodromic_distance_get_sym:
  "p_kind p = p_kind q \<Longrightarrow>
   hkl_parameter_orthodromic_distance_get p (p_value q)
     = hkl_parameter_orthodromic_distance_get q (p_value p)"
  by (cases "p_kind q")
     (simp_all add: hkl_parameter_orthodromic_distance_get_def angle_distance_sym
        abs_minus_commute)

lemma distance_orthodromic_sym:
  assumes "map p_kind (axes g1) = map p_kind (axes g2)"
  shows "hkl_geometry_distance_orthodromic g1 g2 = hkl_geometry_distance_orthodromic g2 g1"
proof -
  from assms have len: "length (axes g1) = length (axes g2)" by (rule map_eq_imp_length_eq)
  have kinds: "\<And>i. i < length (axes g1) \<Longrightarrow> p_kind (axes g1 ! i) = p_kind (axes g2 ! i)"
    using assms len by (metis nth_map)
  have eq: "map (\<lambda>i. hkl_parameter_orthodromic_distance_get (axes g1 ! i) (p_value (axes g2 ! i)))
          [0..<length (axes g1)]
        = map (\<lambda>i. hkl_parameter_orthodromic_distance_get (axes g2 ! i) (p_value (axes g1 ! i)))
          [0..<length (axes g1)]"
    by (rule map_cong) (simp_all add: kinds orthodromic_distance_get_sym)
  show ?thesis
    unfolding hkl_geometry_distance_orthodromic_def foldl_add_sum len [symmetric] eq ..
qed

lemma list_add_loop_iff:
  "list_add_loop eps g its = (\<exists>item \<in> set its. hkl_geometry_distance_orthodromic g item < eps)"
  by (induction its) auto

lemma is_valid_range_loop_iff:
  "hkl_geometry_is_valid_range_loop valid as = (\<forall>a \<in> set as. valid a)"
  by (induction as) auto

lemma separated_add:
  assumes sep: "separated eps shape its"
    and shape: "map p_kind (axes g) = shape"
    and far: "\<not> list_add_loop eps g its"
  shows "separated eps shape (its @ [g])"
proof -
  from far have gi: "\<And>item. item \<in> set its \<Longrightarrow> eps \<le> hkl_geometry_distance_orthodromic g item"
    by (auto simp: list_add_loop_iff not_less)
  from sep have shapes: "\<And>item. item \<in> set its \<Longrightarrow> map p_kind (axes item) = shape"
    by (simp add: separated_def)
  have ig: "\<And>item. item \<in> set its \<Longrightarrow> eps \<le> hkl_geometry_distance_orthodromic item g"
    using gi shapes shape by (metis distance_orthodromic_sym)
  show ?thesis
    unfolding separated_def
  proof (intro conjI ballI allI impI)
    fix x assume "x \<in> set (its @ [g])"
    then show "map p_kind (axes x) = shape" using shapes shape by auto
  next
    fix i j assume i: "i < length (its @ [g])" and j: "j < length (its @ [g])" and ne: "i \<noteq> j"
    consider "i < length its" "j < length its" | "i < length its" "j = length its"
      | "i = length its" "j < length its"
      using i j ne by (simp add: less_Suc_eq) linarith
    then show "eps \<le> hkl_geometry_distance_orthodromic ((its @ [g]) ! i) ((its @ [g]) ! j)"
    proof cases
      case 1
      with sep ne show ?thesis by (simp add: separated_def nth_append)
    next
      case 2
      then show ?thesis using ig [of "its ! i"] by (simp add: nth_append)
    next
      case 3
      then show ?thesis using gi [of "its ! j"] by (simp add: nth_append)
    qed
  qed
qed

lemma separated_filter:
  assumes sep: "separated eps shape its"
  shows "separated eps shape (filter P its)"
proof -
  let ?R = "\<lambda>a b. eps \<le> hkl_geometry_distance_orthodromic a b"
  from sep have shapes: "\<And>item. item \<in> set its \<Longrightarrow> map p_kind (axes item) = shape"
    by (simp add: separated_def)
  from sep have "sorted_wrt ?R its"
    by (simp add: separated_def sorted_wrt_iff_nth_less)
  then have sw: "sorted_wrt ?R (filter P its)" by (rule sorted_wrt_filter)
  show ?thesis
    unfolding separated_def
  proof (intro conjI ballI allI impI)
    fix x assume "x \<in> set (filter P its)"
    then show "map p_kind (axes x) = shape" using shapes by simp
  next
    fix i j
    assume i: "i < length (filter P its)" and j: "j < length (filter P its)" and ne: "i \<noteq> j"
    show "eps \<le> hkl_geometry_distance_orthodromic (filter P its ! i) (filter P its ! j)"
    proof (cases "i < j")
      case True
      with sw j show ?thesis by (simp add: sorted_wrt_iff_nth_less)
    next
      case False
      with ne have "j < i" by simp
      with sw i have "eps \<le> hkl_geometry_distance_orthodromic (filter P its ! j) (filter P its ! i)"
        by (simp add: sorted_wrt_iff_nth_less)
      moreover have "map p_kind (axes (filter P its ! i)) = map p_kind (axes (filter P its ! j))"
        using shapes i j by (metis filter_is_subset nth_mem subsetD)
      ultimately show ?thesis by (simp add: distance_orthodromic_sym)
    qed
  qed
qed

lemma separated_perm:
  assumes sep: "separated eps shape its"
    and ms: "mset idx = mset [0..<length its]"
  shows "separated eps shape (map (\<lambda>k. its ! k) idx)"
proof -
  from ms have set: "set idx = {0..<length its}" by (metis mset_eq_setD set_upt)
  from ms have dist: "distinct idx" by (metis distinct_upt mset_eq_imp_distinct_iff)
  show ?thesis
    unfolding separated_def
  proof (intro conjI ballI allI impI)
    fix x assume "x \<in> set (map (\<lambda>k. its ! k) idx)"
    then obtain k where "k \<in> set idx" "x = its ! k" by auto
    with set sep show "map p_kind (axes x) = shape" by (simp add: separated_def)
  next
    fix i j
    assume i: "i < length (map (\<lambda>k. its ! k) idx)" and j: "j < length (map (\<lambda>k. its ! k) idx)"
      and ne: "i \<noteq> j"
    then have "idx ! i \<noteq> idx ! j" using dist by (simp add: nth_eq_iff_index_eq)
    moreover have "idx ! i < length its" "idx ! j < length its"
      using i j set by (metis atLeastLessThan_iff length_map nth_mem)+
    ultimately show "eps \<le> hkl_geometry_distance_orthodromic
                       (map (\<lambda>k. its ! k) idx ! i) (map (\<lambda>k. its ! k) idx ! j)"
      using sep i j by (simp add: separated_def)
  qed
qed

lemma list_built_separated:
  assumes "0 \<le> eps" and "list_built eps shape self"
  shows "separated eps shape (items self)"
  using assms(2)
proof (induction rule: list_built.induct)
  case built_new
  show ?case by (simp add: hkl_geometry_list_new_def separated_def)
next
  case (built_add self geometry)
  then show ?case
    by (simp add: hkl_geometry_list_add_def hkl_geometry_list_item_new_def separated_add)
next
  case (built_remove_invalid self valid)
  then show ?case
    by (simp add: hkl_geometry_list_remove_invalid_def separated_filter)
next
  case (built_sort self ref)
  from sort_items_perm [OF assms(1), of self ref] obtain idx where
    "items (hkl_geometry_list_sort eps self ref) = map (\<lambda>k. items self ! k) idx"
    and "mset idx = mset [0..<length (items self)]" by blast
  with built_sort.IH show ?case by (simp add: separated_perm)
qed

text \<open>
  Claim C3, as the code has it. In a list built from a new list by
  \<^verbatim>\<open>hkl_geometry_list_add\<close>, \<^verbatim>\<open>hkl_geometry_list_remove_invalid\<close> and
  \<^verbatim>\<open>hkl_geometry_list_sort\<close> (with \<open>eps \<ge> 0\<close>), any two distinct items are at orthodromic
  distance at least \<open>eps\<close>. The multiplicity expansion is not among the operations.
\<close>

theorem hkl_geometry_list_separation:
  assumes "0 \<le> eps" and "list_built eps shape self"
    and "i < length (items self)" and "j < length (items self)" and "i \<noteq> j"
  shows "eps \<le> hkl_geometry_distance_orthodromic (items self ! i) (items self ! j)"
  using list_built_separated [OF assms(1,2)] assms(3-5) by (simp add: separated_def)

lemma pi_facts:
  "1 < 2000000 * pi" "\<not> (pi * 1000000 \<le> 1)" "\<not> (1000000 * pi \<le> 1)" "1 < pi * 2000000"
  "\<not> pi \<le> 1 / 1000000"
  using pi_ge_two by simp_all

lemmas list_eval = hkl_geometry_list_multiply_from_range_def hkl_geometry_list_add_def
  hkl_geometry_list_new_def hkl_geometry_list_item_new_def
  single_axis_geometry_def rotation_axis_def translation_axis_def upt_rec perm_r_def
  hkl_parameter_is_permutable_def hkl_parameter_value_set_smallest_in_range_def
  ignore_value_set_def hkl_parameter_value_set_def pi_facts Let_def
  hkl_geometry_distance_def hkl_geometry_distance_orthodromic_def
  hkl_parameter_orthodromic_distance_get_def angle_distance_def

text \<open>
  The claim as stated fails. \<^verbatim>\<open>hkl_geometry_list_multiply_from_range\<close> appends to an
  item with a rotation in the range \<open>[0, 3\<pi>]\<close> at \<open>0\<close> its copy at \<open>2\<pi>\<close>:
  \<^verbatim>\<open>perm_r\<close> tests \<^verbatim>\<open>hkl_geometry_distance\<close> from the seed item, not the orthodromic
  distance, which is \<open>0\<close> between the two. And \<^verbatim>\<open>hkl_geometry_list_add\<close> accepts a
  geometry at orthodromic distance exactly \<open>eps\<close> from an item, which is not above
  \<open>eps\<close>.
\<close>

theorem multiply_from_range_not_separated:
  "hkl_geometry_list_multiply_from_range (1 / 1000000)
     (hkl_geometry_list_add (1 / 1000000) hkl_geometry_list_new
        (single_axis_geometry (rotation_axis ''phi'' 0 0 (3 * pi))))
   = \<lparr>items = [single_axis_geometry (rotation_axis ''phi'' 0 0 (3 * pi)),
               single_axis_geometry
                 ((rotation_axis ''phi'' 0 (2 * pi) (3 * pi))\<lparr>p_changed := True\<rparr>)]\<rparr>
   \<and> hkl_geometry_distance_orthodromic
        (single_axis_geometry (rotation_axis ''phi'' 0 0 (3 * pi)))
        (single_axis_geometry ((rotation_axis ''phi'' 0 (2 * pi) (3 * pi))\<lparr>p_changed := True\<rparr>))
       = 0
   \<and> hkl_geometry_list_add (1 / 1000000)
        (hkl_geometry_list_add (1 / 1000000) hkl_geometry_list_new
           (single_axis_geometry (translation_axis ''x'' (- 10) 0 10)))
        (single_axis_geometry (translation_axis ''x'' (- 10) (1 / 1000000) 10))
       = \<lparr>items = [single_axis_geometry (translation_axis ''x'' (- 10) 0 10),
                   single_axis_geometry (translation_axis ''x'' (- 10) (1 / 1000000) 10)]\<rparr>
   \<and> hkl_geometry_distance_orthodromic
        (single_axis_geometry (translation_axis ''x'' (- 10) 0 10))
        (single_axis_geometry (translation_axis ''x'' (- 10) (1 / 1000000) 10))
       = 1 / 1000000"
  apply (simp add: list_eval)
  apply (subst perm_r_do.simps)
  apply (simp add: list_eval)
  apply (subst perm_r_do.simps)
  apply (simp add: list_eval)
  done

theorem hkl_geometry_list_separation_witness:
  "1 / 1000000 \<le> hkl_geometry_distance_orthodromic
     (items (hkl_geometry_list_add (1 / 1000000)
        (hkl_geometry_list_add (1 / 1000000) hkl_geometry_list_new
           (single_axis_geometry (translation_axis ''x'' (- 10) 0 10)))
        (single_axis_geometry (translation_axis ''x'' (- 10) 1 10))) ! 0)
     (items (hkl_geometry_list_add (1 / 1000000)
        (hkl_geometry_list_add (1 / 1000000) hkl_geometry_list_new
           (single_axis_geometry (translation_axis ''x'' (- 10) 0 10)))
        (single_axis_geometry (translation_axis ''x'' (- 10) 1 10))) ! 1)"
proof -
  let ?L = "hkl_geometry_list_add (1 / 1000000)
        (hkl_geometry_list_add (1 / 1000000) hkl_geometry_list_new
           (single_axis_geometry (translation_axis ''x'' (- 10) 0 10)))
        (single_axis_geometry (translation_axis ''x'' (- 10) 1 10))"
  have e: "(0::real) \<le> 1 / 1000000" by simp
  have b: "list_built (1 / 1000000) [Translation (0, 0, 1)] ?L"
    by (intro list_built.intros) (simp_all add: single_axis_geometry_def translation_axis_def)
  have l: "length (items ?L) = 2" by (simp add: list_eval)
  show ?thesis
    by (rule hkl_geometry_list_separation [OF e b]) (simp_all add: l)
qed

section \<open>Closest geometry inside the ranges\<close>

text \<open>The two expectations of \<^verbatim>\<open>get_value_closest\<close> in tests/hkl-axis-t.c.\<close>

lemma closest_test_1:
  "hkl_parameter_value_get_closest
     \<lparr>p_name = ''rotation'', p_min = - 270 * pi / 180, p_max = 180 * pi / 180,
      p_value = 100 * pi / 180, p_fit = True, p_changed = True,
      p_kind = Rotation (1, 0, 0) (0, 0, 0)\<rparr>
     \<lparr>p_name = ''rotation'', p_min = - pi, p_max = pi,
      p_value = - 75 * pi / 180, p_fit = True, p_changed = True,
      p_kind = Rotation (1, 0, 0) (0, 0, 0)\<rparr>
   = Some (100 * pi / 180)"
  by (simp add: hkl_parameter_value_get_closest_def Let_def closest_of_def)

lemma closest_test_2:
  "hkl_parameter_value_get_closest
     \<lparr>p_name = ''rotation'', p_min = - 270 * pi / 180, p_max = 180 * pi / 180,
      p_value = 100 * pi / 180, p_fit = True, p_changed = True,
      p_kind = Rotation (1, 0, 0) (0, 0, 0)\<rparr>
     \<lparr>p_name = ''rotation'', p_min = - pi, p_max = pi,
      p_value = - 85 * pi / 180, p_fit = True, p_changed = True,
      p_kind = Rotation (1, 0, 0) (0, 0, 0)\<rparr>
   = Some (- 260 * pi / 180)"
  by (simp add: hkl_parameter_value_get_closest_def Let_def closest_of_def)

lemma closest_of_mem: "closest_of t c cs \<in> set (c # cs)"
  unfolding closest_of_def by (induction cs arbitrary: c) auto

lemma closest_of_le_start: "\<bar>closest_of t c cs - t\<bar> \<le> \<bar>c - t\<bar>"
  unfolding closest_of_def
proof (induction cs arbitrary: c)
  case Nil
  show ?case by simp
next
  case (Cons x xs)
  show ?case
  proof (cases "\<bar>x - t\<bar> < \<bar>c - t\<bar>")
    case True
    with Cons [of x] show ?thesis by simp
  next
    case False
    with Cons [of c] show ?thesis by simp
  qed
qed

lemma closest_of_min: "x \<in> set (c # cs) \<Longrightarrow> \<bar>closest_of t c cs - t\<bar> \<le> \<bar>x - t\<bar>"
proof (induction cs arbitrary: c)
  case Nil
  then show ?case by (simp add: closest_of_def)
next
  case (Cons y ys)
  let ?c' = "if \<bar>y - t\<bar> < \<bar>c - t\<bar> then y else c"
  have step: "closest_of t c (y # ys) = closest_of t ?c' ys" by (simp add: closest_of_def)
  have start: "\<bar>closest_of t ?c' ys - t\<bar> \<le> \<bar>?c' - t\<bar>" by (rule closest_of_le_start)
  from Cons.prems consider "x = c" | "x = y" | "x \<in> set ys" by auto
  then show ?case
  proof cases
    case 1
    with start show ?thesis unfolding step by (simp split: if_splits)
  next
    case 2
    with start show ?thesis unfolding step by (simp split: if_splits)
  next
    case 3
    then have "x \<in> set (?c' # ys)" by simp
    from Cons.IH [OF this] show ?thesis unfolding step .
  qed
qed

lemma closest_rotation_cases:
  assumes "p_kind self = Rotation axis_v origin"
    and "hkl_parameter_value_get_closest self ref = Some c"
  shows "\<exists>k. \<lceil>(p_min self - p_value self) / (2 * pi)\<rceil> \<le> k
             \<and> k \<le> \<lfloor>(p_max self - p_value self) / (2 * pi)\<rfloor>
             \<and> c = p_value self + 2 * pi * of_int k"
    and "\<And>k. \<lceil>(p_min self - p_value self) / (2 * pi)\<rceil> \<le> k \<Longrightarrow>
              k \<le> \<lfloor>(p_max self - p_value self) / (2 * pi)\<rfloor> \<Longrightarrow>
              \<bar>c - p_value ref\<bar> \<le> \<bar>p_value self + 2 * pi * of_int k - p_value ref\<bar>"
proof -
  let ?v = "p_value self"
  let ?kmin = "\<lceil>(p_min self - ?v) / (2 * pi)\<rceil>"
  let ?kmax = "\<lfloor>(p_max self - ?v) / (2 * pi)\<rfloor>"
  let ?cs = "map (\<lambda>k. ?v + 2 * pi * of_int k) [?kmin + 1..?kmax]"
  from assms have le: "?kmin \<le> ?kmax"
    and c: "c = closest_of (p_value ref) (?v + 2 * pi * of_int ?kmin) ?cs"
    by (auto simp: hkl_parameter_value_get_closest_def Let_def split: if_splits)
  have all: "set ((?v + 2 * pi * of_int ?kmin) # ?cs) = (\<lambda>k. ?v + 2 * pi * of_int k) ` {?kmin..?kmax}"
  proof -
    have "{?kmin..?kmax} = insert ?kmin {?kmin + 1..?kmax}" using le by auto
    then show ?thesis by simp
  qed
  from closest_of_mem [of "p_value ref" "?v + 2 * pi * of_int ?kmin" ?cs]
  have "c \<in> (\<lambda>k. ?v + 2 * pi * of_int k) ` {?kmin..?kmax}" unfolding c all .
  then show "\<exists>k. ?kmin \<le> k \<and> k \<le> ?kmax \<and> c = ?v + 2 * pi * of_int k" by auto
  fix k assume "?kmin \<le> k" "k \<le> ?kmax"
  then have "?v + 2 * pi * of_int k \<in> set ((?v + 2 * pi * of_int ?kmin) # ?cs)"
    unfolding all by simp
  from closest_of_min [OF this, of "p_value ref"]
  show "\<bar>c - p_value ref\<bar> \<le> \<bar>?v + 2 * pi * of_int k - p_value ref\<bar>" unfolding c .
qed

lemma shift_in_range:
  fixes v mn mx :: real and k :: int
  shows "(mn \<le> v + 2 * pi * of_int k) = (\<lceil>(mn - v) / (2 * pi)\<rceil> \<le> k)"
    and "(v + 2 * pi * of_int k \<le> mx) = (k \<le> \<lfloor>(mx - v) / (2 * pi)\<rfloor>)"
proof -
  have p: "0 < 2 * pi" by simp
  have "(\<lceil>(mn - v) / (2 * pi)\<rceil> \<le> k) = ((mn - v) / (2 * pi) \<le> of_int k)"
    by (rule ceiling_le_iff)
  also have "\<dots> = (mn - v \<le> of_int k * (2 * pi))" using p by (simp add: pos_divide_le_eq)
  also have "\<dots> = (mn \<le> v + 2 * pi * of_int k)" by (auto simp: algebra_simps)
  finally show "(mn \<le> v + 2 * pi * of_int k) = (\<lceil>(mn - v) / (2 * pi)\<rceil> \<le> k)" ..
  have "(k \<le> \<lfloor>(mx - v) / (2 * pi)\<rfloor>) = (of_int k \<le> (mx - v) / (2 * pi))"
    by (rule le_floor_iff)
  also have "\<dots> = (of_int k * (2 * pi) \<le> mx - v)" using p by (simp add: pos_le_divide_eq)
  also have "\<dots> = (v + 2 * pi * of_int k \<le> mx)" by (auto simp: algebra_simps)
  finally show "(v + 2 * pi * of_int k \<le> mx) = (k \<le> \<lfloor>(mx - v) / (2 * pi)\<rfloor>)" ..
qed

lemma closest_properties:
  assumes "hkl_parameter_value_get_closest self ref = Some c"
  shows "p_min self \<le> c" and "c \<le> p_max self"
    and "\<exists>k::int. c = p_value self + 2 * pi * of_int k"
    and "\<And>(k::int) axis_v origin. p_kind self = Rotation axis_v origin \<Longrightarrow>
           p_min self \<le> p_value self + 2 * pi * of_int k \<Longrightarrow>
           p_value self + 2 * pi * of_int k \<le> p_max self \<Longrightarrow>
           \<bar>c - p_value ref\<bar> \<le> \<bar>p_value self + 2 * pi * of_int k - p_value ref\<bar>"
proof -
  have "p_min self \<le> c \<and> c \<le> p_max self \<and> (\<exists>k::int. c = p_value self + 2 * pi * of_int k)"
  proof (cases "p_kind self")
    case (Rotation axis_v origin)
    from closest_rotation_cases(1) [OF Rotation assms] obtain k where
      "\<lceil>(p_min self - p_value self) / (2 * pi)\<rceil> \<le> k"
      "k \<le> \<lfloor>(p_max self - p_value self) / (2 * pi)\<rfloor>"
      "c = p_value self + 2 * pi * of_int k" by blast
    then show ?thesis
      using shift_in_range(1) [of "p_min self" "p_value self" k]
        shift_in_range(2) [of "p_value self" k "p_max self"]
      by blast
  next
    case Scalar
    with assms have "c = p_value self" "p_min self \<le> c" "c \<le> p_max self"
      by (auto simp: hkl_parameter_value_get_closest_def split: if_splits)
    moreover have "p_value self = p_value self + 2 * pi * of_int 0" by simp
    ultimately show ?thesis by blast
  next
    case (Translation axis_v)
    with assms have "c = p_value self" "p_min self \<le> c" "c \<le> p_max self"
      by (auto simp: hkl_parameter_value_get_closest_def split: if_splits)
    moreover have "p_value self = p_value self + 2 * pi * of_int 0" by simp
    ultimately show ?thesis by blast
  qed
  then show "p_min self \<le> c" and "c \<le> p_max self"
    and "\<exists>k::int. c = p_value self + 2 * pi * of_int k" by blast+
  fix k :: int and axis_v origin
  assume "p_kind self = Rotation axis_v origin"
    and "p_min self \<le> p_value self + 2 * pi * of_int k"
    and "p_value self + 2 * pi * of_int k \<le> p_max self"
  then show "\<bar>c - p_value ref\<bar> \<le> \<bar>p_value self + 2 * pi * of_int k - p_value ref\<bar>"
    using closest_rotation_cases(2) [OF _ assms, of axis_v origin k]
      shift_in_range(1) [of "p_min self" "p_value self" k]
      shift_in_range(2) [of "p_value self" k "p_max self"] by blast
qed

lemma value_set_in_range:
  "p_min p \<le> v \<Longrightarrow> v \<le> p_max p \<Longrightarrow>
   ignore_value_set p v = p\<lparr>p_value := v, p_changed := True\<rparr>"
  by (cases "p_kind p") (simp_all add: ignore_value_set_def hkl_parameter_value_set_def)

lemma closest_loop_all:
  "\<forall>i \<in> set is. hkl_parameter_value_get_closest (s ! i) (r ! i) \<noteq> None \<Longrightarrow>
   closest_loop s r is acc
     = (False, acc @ map (\<lambda>i. the (hkl_parameter_value_get_closest (s ! i) (r ! i))) is)"
  by (induction "is" arbitrary: acc) auto

lemma closest_loop_nan:
  "\<exists>i \<in> set is. hkl_parameter_value_get_closest (s ! i) (r ! i) = None \<Longrightarrow>
   fst (closest_loop s r is acc) = True"
  by (induction "is" arbitrary: acc) (auto split: option.split)

lemma hkl_geometry_update_axes:
  "length (axes (hkl_geometry_update g)) = length (axes g)"
  "i < length (axes g) \<Longrightarrow>
     axes (hkl_geometry_update g) ! i = axes g ! i
     \<or> axes (hkl_geometry_update g) ! i = (axes g ! i)\<lparr>p_changed := False\<rparr>"
  by (simp_all add: hkl_geometry_update_def)

lemma closest_from_failure:
  assumes "i < length (axes self)"
    and "hkl_parameter_value_get_closest (axes self ! i) (axes ref ! i) = None"
  shows "hkl_geometry_closest_from_geometry_with_range self ref = (True, self)"
proof -
  have "\<exists>i \<in> set [0..<length (axes self)].
          hkl_parameter_value_get_closest (axes self ! i) (axes ref ! i) = None"
    using assms by auto
  from closest_loop_nan [OF this, of "[]"]
  obtain vs where "closest_loop (axes self) (axes ref) [0..<length (axes self)] [] = (True, vs)"
    by (cases "closest_loop (axes self) (axes ref) [0..<length (axes self)] []") auto
  then show ?thesis
    by (simp add: hkl_geometry_closest_from_geometry_with_range_def Let_def)
qed

lemma closest_from_success:
  assumes all: "\<forall>i < length (axes self).
                  hkl_parameter_value_get_closest (axes self ! i) (axes ref ! i) \<noteq> None"
  defines "set_axis \<equiv> \<lambda>i. (axes self ! i)
             \<lparr>p_value := the (hkl_parameter_value_get_closest (axes self ! i) (axes ref ! i)),
              p_changed := True\<rparr>"
  shows "hkl_geometry_closest_from_geometry_with_range self ref
           = (False, hkl_geometry_update
                       (self\<lparr>axes := map set_axis [0..<length (axes self)]\<rparr>))"
proof -
  let ?c = "\<lambda>i. the (hkl_parameter_value_get_closest (axes self ! i) (axes ref ! i))"
  have "\<forall>i \<in> set [0..<length (axes self)].
          hkl_parameter_value_get_closest (axes self ! i) (axes ref ! i) \<noteq> None"
    using all by simp
  from closest_loop_all [OF this, of "[]"]
  have loop: "closest_loop (axes self) (axes ref) [0..<length (axes self)] []
                = (False, map ?c [0..<length (axes self)])" by simp
  have eq: "map (\<lambda>i. ignore_value_set (axes self ! i) (map ?c [0..<length (axes self)] ! i))
          [0..<length (axes self)]
        = map set_axis [0..<length (axes self)]"
  proof (rule map_cong)
    fix i assume "i \<in> set [0..<length (axes self)]"
    then have i: "i < length (axes self)" by simp
    with all obtain c where c: "hkl_parameter_value_get_closest (axes self ! i) (axes ref ! i) = Some c"
      by auto
    from closest_properties(1,2) [OF c] i c
    show "ignore_value_set (axes self ! i) (map ?c [0..<length (axes self)] ! i) = set_axis i"
      by (simp add: value_set_in_range set_axis_def)
  qed simp
  show ?thesis
    by (simp only: hkl_geometry_closest_from_geometry_with_range_def Let_def loop prod.case
          simp_thms if_True eq)
qed

lemma hkl_geometry_update_axis:
  assumes "i < length (axes g)"
  shows "p_value (axes (hkl_geometry_update g) ! i) = p_value (axes g ! i)"
    and "p_name (axes (hkl_geometry_update g) ! i) = p_name (axes g ! i)"
    and "p_min (axes (hkl_geometry_update g) ! i) = p_min (axes g ! i)"
    and "p_max (axes (hkl_geometry_update g) ! i) = p_max (axes g ! i)"
    and "p_fit (axes (hkl_geometry_update g) ! i) = p_fit (axes g ! i)"
    and "p_kind (axes (hkl_geometry_update g) ! i) = p_kind (axes g ! i)"
    and "length (axes (hkl_geometry_update g)) = length (axes g)"
  using assms by (simp_all add: hkl_geometry_update_def)

text \<open>
  Claim C7, as the code has it. \<^verbatim>\<open>hkl_geometry_closest_from_geometry_with_range\<close> is
  atomic. If the closest value of some axis is NaN, the call returns non-zero and the
  geometry is left exactly as it was. Otherwise it returns 0, keeps the number of axes, and
  every axis keeps its name, range and kind and gets the closest value: a value inside the
  range \<open>[min,max]\<close> of the axis, \<open>2\<pi>\<close>-equivalent to the value the axis had (not to the value
  of the reference axis), and, for a rotation, nearest to the value of the reference axis
  among all such representatives.
\<close>

theorem hkl_geometry_closest_from_geometry_with_range_atomic:
  fixes self ref :: HklGeometry
  defines "closest \<equiv> \<lambda>i. hkl_parameter_value_get_closest (axes self ! i) (axes ref ! i)"
    and "ko \<equiv> fst (hkl_geometry_closest_from_geometry_with_range self ref)"
    and "self' \<equiv> snd (hkl_geometry_closest_from_geometry_with_range self ref)"
  shows "((\<exists>i < length (axes self). closest i = None) \<longrightarrow> ko = True \<and> self' = self)
       \<and> ((\<forall>i < length (axes self). closest i \<noteq> None) \<longrightarrow>
            ko = False
          \<and> length (axes self') = length (axes self)
          \<and> (\<forall>i < length (axes self).
                closest i = Some (p_value (axes self' ! i))
              \<and> p_min (axes self ! i) \<le> p_value (axes self' ! i)
              \<and> p_value (axes self' ! i) \<le> p_max (axes self ! i)
              \<and> (\<exists>k::int. p_value (axes self' ! i) = p_value (axes self ! i) + 2 * pi * of_int k)
              \<and> (\<forall>(k::int) axis_v origin.
                    p_kind (axes self ! i) = Rotation axis_v origin
                    \<and> p_min (axes self ! i) \<le> p_value (axes self ! i) + 2 * pi * of_int k
                    \<and> p_value (axes self ! i) + 2 * pi * of_int k \<le> p_max (axes self ! i)
                    \<longrightarrow> \<bar>p_value (axes self' ! i) - p_value (axes ref ! i)\<bar>
                          \<le> \<bar>p_value (axes self ! i) + 2 * pi * of_int k - p_value (axes ref ! i)\<bar>)
              \<and> p_name (axes self' ! i) = p_name (axes self ! i)
              \<and> p_min (axes self' ! i) = p_min (axes self ! i)
              \<and> p_max (axes self' ! i) = p_max (axes self ! i)
              \<and> p_kind (axes self' ! i) = p_kind (axes self ! i)))"
proof (intro conjI impI)
  assume "\<exists>i < length (axes self). closest i = None"
  then obtain i where "i < length (axes self)"
    "hkl_parameter_value_get_closest (axes self ! i) (axes ref ! i) = None"
    by (auto simp: closest_def)
  from closest_from_failure [OF this] show "ko = True" and "self' = self"
    by (simp_all add: ko_def self'_def)
next
  assume all: "\<forall>i < length (axes self). closest i \<noteq> None"
  define set_axis where "set_axis = (\<lambda>i. (axes self ! i)
             \<lparr>p_value := the (hkl_parameter_value_get_closest (axes self ! i) (axes ref ! i)),
              p_changed := True\<rparr>)"
  define g where "g = self\<lparr>axes := map set_axis [0..<length (axes self)]\<rparr>"
  from all have "hkl_geometry_closest_from_geometry_with_range self ref
                   = (False, hkl_geometry_update g)"
    unfolding closest_def g_def set_axis_def by (rule closest_from_success)
  then have ko: "ko = False" and self': "self' = hkl_geometry_update g"
    by (simp_all add: ko_def self'_def)
  have glen: "length (axes g) = length (axes self)" by (simp add: g_def)
  show "ko = False" by (rule ko)
  show "length (axes self') = length (axes self)"
    by (simp add: self' hkl_geometry_update_def g_def)
  show "\<forall>i < length (axes self).
                closest i = Some (p_value (axes self' ! i))
              \<and> p_min (axes self ! i) \<le> p_value (axes self' ! i)
              \<and> p_value (axes self' ! i) \<le> p_max (axes self ! i)
              \<and> (\<exists>k::int. p_value (axes self' ! i) = p_value (axes self ! i) + 2 * pi * of_int k)
              \<and> (\<forall>(k::int) axis_v origin.
                    p_kind (axes self ! i) = Rotation axis_v origin
                    \<and> p_min (axes self ! i) \<le> p_value (axes self ! i) + 2 * pi * of_int k
                    \<and> p_value (axes self ! i) + 2 * pi * of_int k \<le> p_max (axes self ! i)
                    \<longrightarrow> \<bar>p_value (axes self' ! i) - p_value (axes ref ! i)\<bar>
                          \<le> \<bar>p_value (axes self ! i) + 2 * pi * of_int k - p_value (axes ref ! i)\<bar>)
              \<and> p_name (axes self' ! i) = p_name (axes self ! i)
              \<and> p_min (axes self' ! i) = p_min (axes self ! i)
              \<and> p_max (axes self' ! i) = p_max (axes self ! i)
              \<and> p_kind (axes self' ! i) = p_kind (axes self ! i)"
  proof (intro allI impI)
    fix i assume i: "i < length (axes self)"
    with all obtain c where c: "hkl_parameter_value_get_closest (axes self ! i) (axes ref ! i) = Some c"
      by (auto simp: closest_def)
    from i have gi: "axes g ! i = (axes self ! i)\<lparr>p_value := c, p_changed := True\<rparr>"
      by (simp add: g_def set_axis_def c)
    from i glen have ig: "i < length (axes g)" by simp
    note upd = hkl_geometry_update_axis [OF ig]
    have v: "p_value (axes self' ! i) = c" by (simp add: self' upd gi)
    note props = closest_properties [OF c]
    show "closest i = Some (p_value (axes self' ! i))
              \<and> p_min (axes self ! i) \<le> p_value (axes self' ! i)
              \<and> p_value (axes self' ! i) \<le> p_max (axes self ! i)
              \<and> (\<exists>k::int. p_value (axes self' ! i) = p_value (axes self ! i) + 2 * pi * of_int k)
              \<and> (\<forall>(k::int) axis_v origin.
                    p_kind (axes self ! i) = Rotation axis_v origin
                    \<and> p_min (axes self ! i) \<le> p_value (axes self ! i) + 2 * pi * of_int k
                    \<and> p_value (axes self ! i) + 2 * pi * of_int k \<le> p_max (axes self ! i)
                    \<longrightarrow> \<bar>p_value (axes self' ! i) - p_value (axes ref ! i)\<bar>
                          \<le> \<bar>p_value (axes self ! i) + 2 * pi * of_int k - p_value (axes ref ! i)\<bar>)
              \<and> p_name (axes self' ! i) = p_name (axes self ! i)
              \<and> p_min (axes self' ! i) = p_min (axes self ! i)
              \<and> p_max (axes self' ! i) = p_max (axes self ! i)
              \<and> p_kind (axes self' ! i) = p_kind (axes self ! i)"
      unfolding v
      using props(1,2,3) props(4) c
      by (auto simp: closest_def self' upd gi)
  qed
qed

text \<open>
  Both branches at concrete geometries: a rotation at \<open>0\<close> with the range \<open>[1, 2]\<close> has no
  representative, and the geometry is returned as it was; a rotation at \<open>\<pi>/2\<close> with the
  range \<open>[-3\<pi>/2, \<pi>]\<close> and the reference at \<open>0\<close> keeps \<open>\<pi>/2\<close>.
\<close>

lemma closest_example_nan:
  "hkl_parameter_value_get_closest (rotation_axis ''omega'' 1 0 2) (rotation_axis ''omega'' 1 1 2)
     = None"
proof -
  have "\<lceil>1 / (2 * pi)\<rceil> = 1"
    using pi_ge_two by (simp add: ceiling_eq_iff)
  moreover have "\<lfloor>2 / (2 * pi)\<rfloor> = 0"
    using pi_ge_two by (simp add: floor_eq_iff)
  ultimately show ?thesis
    by (simp add: hkl_parameter_value_get_closest_def rotation_axis_def Let_def)
qed

lemma closest_example_some:
  "hkl_parameter_value_get_closest (rotation_axis ''omega'' (- 3 * pi / 2) (pi / 2) pi)
     (rotation_axis ''omega'' (- 3 * pi / 2) 0 pi) = Some (pi / 2)"
proof -
  have "\<lceil>(- 3 * pi / 2 - pi / 2) / (2 * pi)\<rceil> = - 1"
    by (simp add: ceiling_eq_iff)
  moreover have "\<lfloor>(pi - pi / 2) / (2 * pi)\<rfloor> = 0"
    by (simp add: floor_eq_iff)
  moreover have "[- 1 + 1..0::int] = [0]" by simp
  ultimately show ?thesis
    by (simp add: hkl_parameter_value_get_closest_def rotation_axis_def Let_def closest_of_def)
qed

theorem hkl_geometry_closest_from_geometry_with_range_atomic_witness:
  "hkl_geometry_closest_from_geometry_with_range
     (single_axis_geometry (rotation_axis ''omega'' 1 0 2))
     (single_axis_geometry (rotation_axis ''omega'' 1 1 2))
   = (True, single_axis_geometry (rotation_axis ''omega'' 1 0 2))
   \<and> fst (hkl_geometry_closest_from_geometry_with_range
        (single_axis_geometry (rotation_axis ''omega'' (- 3 * pi / 2) (pi / 2) pi))
        (single_axis_geometry (rotation_axis ''omega'' (- 3 * pi / 2) 0 pi))) = False
   \<and> p_value (axes (snd (hkl_geometry_closest_from_geometry_with_range
        (single_axis_geometry (rotation_axis ''omega'' (- 3 * pi / 2) (pi / 2) pi))
        (single_axis_geometry (rotation_axis ''omega'' (- 3 * pi / 2) 0 pi)))) ! 0) = pi / 2"
proof -
  let ?F = "single_axis_geometry (rotation_axis ''omega'' 1 0 2)"
  let ?FR = "single_axis_geometry (rotation_axis ''omega'' 1 1 2)"
  let ?S = "single_axis_geometry (rotation_axis ''omega'' (- 3 * pi / 2) (pi / 2) pi)"
  let ?R = "single_axis_geometry (rotation_axis ''omega'' (- 3 * pi / 2) 0 pi)"
  have f: "\<exists>i < length (axes ?F).
             hkl_parameter_value_get_closest (axes ?F ! i) (axes ?FR ! i) = None"
    using closest_example_nan by (simp add: single_axis_geometry_def)
  have s: "\<forall>i < length (axes ?S).
             hkl_parameter_value_get_closest (axes ?S ! i) (axes ?R ! i) \<noteq> None"
    using closest_example_some by (simp add: single_axis_geometry_def)
  have s0: "hkl_parameter_value_get_closest (axes ?S ! 0) (axes ?R ! 0) = Some (pi / 2)"
    using closest_example_some by (simp add: single_axis_geometry_def)
  have l: "0 < length (axes ?S)" by (simp add: single_axis_geometry_def)
  note fail = hkl_geometry_closest_from_geometry_with_range_atomic
                [of ?F ?FR, THEN conjunct1, THEN mp, OF f]
  note succ = hkl_geometry_closest_from_geometry_with_range_atomic
                [of ?S ?R, THEN conjunct2, THEN mp, OF s]
  from fail have 1: "hkl_geometry_closest_from_geometry_with_range ?F ?FR = (True, ?F)"
    by (simp add: prod_eq_iff)
  from succ have 2: "fst (hkl_geometry_closest_from_geometry_with_range ?S ?R) = False"
    by (rule conjunct1)
  from succ [THEN conjunct2, THEN conjunct2, THEN spec, THEN mp, OF l, THEN conjunct1] s0
  have 3: "p_value (axes (snd (hkl_geometry_closest_from_geometry_with_range ?S ?R)) ! 0)
             = pi / 2" by simp
  from 1 2 3 show ?thesis by (intro conjI)
qed

text \<open>
  The data of tests/hkl-axis-t.c: the axis at \<open>100\<close> degrees with the range \<open>[-270, 180]\<close>
  degrees and the reference at \<open>-75\<close> degrees. The call succeeds and the axis stays at \<open>100\<close>
  degrees, although \<open>-75\<close> degrees lies inside the range: the value set is a representative
  of the own value of the axis, and it differs from the reference value by \<open>175\<close> degrees,
  which is strictly between \<open>0\<close> and \<open>2\<pi>\<close>.
\<close>

theorem closest_from_keeps_own_angle:
  "fst (hkl_geometry_closest_from_geometry_with_range
        (single_axis_geometry (test_axis (- 270 * pi / 180) (100 * pi / 180) pi))
        (single_axis_geometry (test_axis (- pi) (- 75 * pi / 180) pi))) = False
   \<and> map p_value (axes (snd (hkl_geometry_closest_from_geometry_with_range
        (single_axis_geometry (test_axis (- 270 * pi / 180) (100 * pi / 180) pi))
        (single_axis_geometry (test_axis (- pi) (- 75 * pi / 180) pi))))) = [100 * pi / 180]
   \<and> map p_value (axes (single_axis_geometry (test_axis (- pi) (- 75 * pi / 180) pi)))
       = [- 75 * pi / 180]
   \<and> - 270 * pi / 180 \<le> - 75 * pi / 180 \<and> - 75 * pi / 180 \<le> pi
   \<and> 0 < 100 * pi / 180 - (- 75 * pi / 180)
   \<and> 100 * pi / 180 - (- 75 * pi / 180) < 2 * pi"
proof -
  let ?S = "single_axis_geometry (test_axis (- 270 * pi / 180) (100 * pi / 180) pi)"
  let ?R = "single_axis_geometry (test_axis (- pi) (- 75 * pi / 180) pi)"
  have c: "hkl_parameter_value_get_closest (axes ?S ! 0) (axes ?R ! 0) = Some (100 * pi / 180)"
    by (simp add: single_axis_geometry_def test_axis_def hkl_parameter_value_get_closest_def
          Let_def closest_of_def)
  then have "\<forall>i < length (axes ?S).
             hkl_parameter_value_get_closest (axes ?S ! i) (axes ?R ! i) \<noteq> None"
    by (simp add: single_axis_geometry_def)
  from closest_from_success [OF this] c
  have "hkl_geometry_closest_from_geometry_with_range ?S ?R
          = (False, hkl_geometry_update
               (?S\<lparr>axes := [(axes ?S ! 0)\<lparr>p_value := 100 * pi / 180, p_changed := True\<rparr>]\<rparr>))"
    by (simp add: single_axis_geometry_def)
  then have "fst (hkl_geometry_closest_from_geometry_with_range ?S ?R) = False"
    and "map p_value (axes (snd (hkl_geometry_closest_from_geometry_with_range ?S ?R)))
           = [100 * pi / 180]"
    by (simp_all add: hkl_geometry_update_def single_axis_geometry_def test_axis_def)
  moreover have "map p_value (axes ?R) = [- 75 * pi / 180]"
    by (simp add: single_axis_geometry_def test_axis_def)
  moreover have "- 270 * pi / 180 \<le> - 75 * pi / 180" "- 75 * pi / 180 \<le> pi"
    "0 < 100 * pi / 180 - (- 75 * pi / 180)" "100 * pi / 180 - (- 75 * pi / 180) < 2 * pi"
    using pi_gt_zero by linarith+
  ultimately show ?thesis by (intro conjI)
qed

section \<open>Frame of the slit fit\<close>

lemma rotation_value_set:
  "p_kind p = Rotation axis_v origin \<Longrightarrow>
   ignore_value_set p x = p\<lparr>p_value := x, p_changed := True\<rparr>"
  by (simp add: ignore_value_set_def hkl_parameter_value_set_def)

lemma value_changed_swap:
  "p\<lparr>p_changed := c, p_value := v\<rparr> = p\<lparr>p_value := v, p_changed := c\<rparr>"
  by (cases p) simp

lemma hkl_geometry_update_changed:
  assumes "i < length (axes g)" and "p_changed (axes g ! i)"
  shows "hkl_geometry_update g
           = g\<lparr>holders := map (hkl_holder_update g) (holders g),
                axes := map (\<lambda>axis. axis\<lparr>p_changed := False\<rparr>) (axes g)\<rparr>"
proof -
  from assms have "\<exists>axis \<in> set (axes g). p_changed axis" using nth_mem by blast
  then show ?thesis by (simp add: hkl_geometry_update_def)
qed

lemma slits_func_axes:
  assumes "sid < length (axes g)" and "p_kind (axes g ! sid) = Rotation axis_v origin"
  shows "axes (slits_func sid g x)
           = (map (\<lambda>axis. axis\<lparr>p_changed := False\<rparr>) (axes g))
               [sid := (axes g ! sid)\<lparr>p_value := x, p_changed := False\<rparr>]"
    and "wave_length (slits_func sid g x) = wave_length g"
    and "map h_idx (holders (slits_func sid g x)) = map h_idx (holders g)"
proof -
  let ?h = "g\<lparr>axes := (axes g)[sid := (axes g ! sid)\<lparr>p_value := x, p_changed := True\<rparr>]\<rparr>"
  have f: "slits_func sid g x = hkl_geometry_update ?h"
    by (simp add: slits_func_def rotation_value_set [OF assms(2)])
  have "sid < length (axes ?h)" and "p_changed (axes ?h ! sid)" using assms(1) by simp_all
  note u = hkl_geometry_update_changed [OF this]
  show "axes (slits_func sid g x)
           = (map (\<lambda>axis. axis\<lparr>p_changed := False\<rparr>) (axes g))
               [sid := (axes g ! sid)\<lparr>p_value := x, p_changed := False\<rparr>]"
    unfolding f u by (simp add: map_update)
  show "wave_length (slits_func sid g x) = wave_length g"
    unfolding f u by simp
  show "map h_idx (holders (slits_func sid g x)) = map h_idx (holders g)"
    unfolding f u by (simp add: hkl_holder_update_def comp_def)
qed

lemma slits_fold:
  assumes "sid < length (axes g)" and "p_kind (axes g ! sid) = Rotation axis_v origin"
    and "axes g' = (map (\<lambda>axis. axis\<lparr>p_changed := False\<rparr>) (axes g))
                     [sid := (axes g ! sid)\<lparr>p_value := v, p_changed := False\<rparr>]"
    and "wave_length g' = wave_length g"
    and "map h_idx (holders g') = map h_idx (holders g)"
  shows "axes (foldl (slits_func sid) g' xs)
           = (map (\<lambda>axis. axis\<lparr>p_changed := False\<rparr>) (axes g))
               [sid := (axes g ! sid)\<lparr>p_value := last (v # xs), p_changed := False\<rparr>]
         \<and> wave_length (foldl (slits_func sid) g' xs) = wave_length g
         \<and> map h_idx (holders (foldl (slits_func sid) g' xs)) = map h_idx (holders g)"
  using assms(3-5)
proof (induction xs arbitrary: g' v)
  case Nil
  then show ?case by simp
next
  case (Cons x xs)
  from Cons.prems(1) assms(1,2) have l: "sid < length (axes g')"
    and k: "p_kind (axes g' ! sid) = Rotation axis_v origin" by simp_all
  note f = slits_func_axes [OF l k, of x]
  have "axes (slits_func sid g' x)
          = (map (\<lambda>axis. axis\<lparr>p_changed := False\<rparr>) (axes g))
              [sid := (axes g ! sid)\<lparr>p_value := x, p_changed := False\<rparr>]"
    unfolding f(1) Cons.prems(1) using assms(1) by (simp add: map_update comp_def)
  from Cons.IH [OF this] f(2,3) Cons.prems(2,3) show ?case by simp
qed

lemma fit_slits_orientation_axes:
  fixes restrict_pos :: "real \<Rightarrow> real" and xs :: "real list" and gsl_continue :: bool
  defines "r \<equiv> \<lambda>sid g. fit_slits_orientation restrict_pos xs gsl_continue sid g"
  assumes "sid < length (axes g)" and "p_kind (axes g ! sid) = Rotation axis_v origin"
  shows "fst (r sid g) = (\<not> gsl_continue)"
    and "axes (snd (r sid g))
           = (map (\<lambda>axis. axis\<lparr>p_changed := False\<rparr>) (axes g))
               [sid := (axes g ! sid)
                  \<lparr>p_value := (if gsl_continue then last (p_value (axes g ! sid) # xs)
                                else restrict_pos (last (p_value (axes g ! sid) # xs))),
                   p_changed := False\<rparr>]"
    and "wave_length (snd (r sid g)) = wave_length g"
    and "map h_idx (holders (snd (r sid g))) = map h_idx (holders g)"
proof -
  let ?x0 = "p_value (axes g ! sid)"
  let ?g1 = "slits_func sid g ?x0"
  note f = slits_func_axes [OF assms(2,3), of ?x0]
  from slits_fold [OF assms(2,3) f, of xs]
  have fold: "axes (foldl (slits_func sid) g (?x0 # xs))
           = (map (\<lambda>axis. axis\<lparr>p_changed := False\<rparr>) (axes g))
               [sid := (axes g ! sid)\<lparr>p_value := last (?x0 # xs), p_changed := False\<rparr>]"
    and w: "wave_length (foldl (slits_func sid) g (?x0 # xs)) = wave_length g"
    and h: "map h_idx (holders (foldl (slits_func sid) g (?x0 # xs))) = map h_idx (holders g)"
    by simp_all
  show "fst (r sid g) = (\<not> gsl_continue)"
    by (simp add: r_def fit_slits_orientation_def Let_def)
  show "axes (snd (r sid g))
           = (map (\<lambda>axis. axis\<lparr>p_changed := False\<rparr>) (axes g))
               [sid := (axes g ! sid)
                  \<lparr>p_value := (if gsl_continue then last (?x0 # xs)
                                else restrict_pos (last (?x0 # xs))),
                   p_changed := False\<rparr>]"
    using assms(2)
    by (simp add: r_def fit_slits_orientation_def Let_def fold value_changed_swap
          del: foldl_Cons)
  show "wave_length (snd (r sid g)) = wave_length g"
    by (simp add: r_def fit_slits_orientation_def Let_def w del: foldl_Cons)
  show "map h_idx (holders (snd (r sid g))) = map h_idx (holders g)"
    by (simp add: r_def fit_slits_orientation_def Let_def h del: foldl_Cons)
qed

lemma slits_func_holders:
  assumes "sid < length (axes g)" and "p_kind (axes g ! sid) = Rotation axis_v origin"
  shows "holders (slits_func sid g x)
           = map (hkl_holder_update
                    (g\<lparr>axes := (axes g)[sid := (axes g ! sid)\<lparr>p_value := x, p_changed := True\<rparr>]\<rparr>))
               (holders g)"
proof -
  let ?h = "g\<lparr>axes := (axes g)[sid := (axes g ! sid)\<lparr>p_value := x, p_changed := True\<rparr>]\<rparr>"
  have f: "slits_func sid g x = hkl_geometry_update ?h"
    by (simp add: slits_func_def rotation_value_set [OF assms(2)])
  have "sid < length (axes ?h)" and "p_changed (axes ?h ! sid)" using assms(1) by simp_all
  note u = hkl_geometry_update_changed [OF this]
  show ?thesis unfolding f u by simp
qed

lemma nth_beyond: "length xs \<le> i \<Longrightarrow> xs ! i = [] ! (i - length xs)"
proof (induction xs arbitrary: i)
  case Nil
  show ?case by simp
next
  case (Cons x xs)
  then obtain j where "i = Suc j" by (cases i) auto
  with Cons show ?case by simp
qed

lemma cleared_positions:
  "p_kind (map (\<lambda>axis. axis\<lparr>p_changed := False\<rparr>) as ! i) = p_kind (as ! i)
   \<and> p_value (map (\<lambda>axis. axis\<lparr>p_changed := False\<rparr>) as ! i) = p_value (as ! i)"
proof (cases "i < length as")
  case True
  then show ?thesis by simp
next
  case False
  then have "map (\<lambda>axis. axis\<lparr>p_changed := False\<rparr>) as ! i = as ! i"
    using nth_beyond [of as i] nth_beyond [of "map (\<lambda>axis. axis\<lparr>p_changed := False\<rparr>) as" i]
    by simp
  then show ?thesis by simp
qed

lemma quaternion_get_positions:
  "p_kind p = p_kind p' \<Longrightarrow> p_value p = p_value p' \<Longrightarrow>
   hkl_parameter_quaternion_get p = hkl_parameter_quaternion_get p'"
  by (simp split: HklTransformation.split prod.split)

lemma holder_update_loop_positions:
  assumes "\<forall>i. p_kind (as ! i) = p_kind (bs ! i) \<and> p_value (as ! i) = p_value (bs ! i)"
  shows "holder_update_loop as idx q = holder_update_loop bs idx q"
proof (induction idx arbitrary: q)
  case Nil
  show ?case by simp
next
  case (Cons i idx)
  from assms have "p_kind (as ! i) = p_kind (bs ! i)" and "p_value (as ! i) = p_value (bs ! i)"
    by blast+
  then have "hkl_parameter_quaternion_get (as ! i) = hkl_parameter_quaternion_get (bs ! i)"
    by (rule quaternion_get_positions)
  with Cons show ?case
    by (simp del: hkl_parameter_quaternion_get.simps split: option.split)
qed

lemma hkl_holder_update_positions:
  assumes "\<forall>i. p_kind (axes g1 ! i) = p_kind (axes g2 ! i)
               \<and> p_value (axes g1 ! i) = p_value (axes g2 ! i)"
  shows "hkl_holder_update g1 (hkl_holder_update g0 h) = hkl_holder_update g2 h"
    and "hkl_holder_update g1 h = hkl_holder_update g2 h"
  using holder_update_loop_positions [OF assms] by (simp_all add: hkl_holder_update_def)

lemma slits_fold_holders:
  assumes "sid < length (axes g)" and "p_kind (axes g ! sid) = Rotation axis_v origin"
    and "axes g' = (map (\<lambda>axis. axis\<lparr>p_changed := False\<rparr>) (axes g))
                     [sid := (axes g ! sid)\<lparr>p_value := v, p_changed := False\<rparr>]"
    and "holders g' = map (hkl_holder_update
                             (g\<lparr>axes := (axes g)[sid := (axes g ! sid)\<lparr>p_value := v\<rparr>]\<rparr>))
                        (holders g)"
  shows "holders (foldl (slits_func sid) g' xs)
           = map (hkl_holder_update
                    (g\<lparr>axes := (axes g)[sid := (axes g ! sid)\<lparr>p_value := last (v # xs)\<rparr>]\<rparr>))
               (holders g)"
  using assms(3,4)
proof (induction xs arbitrary: g' v)
  case Nil
  then show ?case by simp
next
  case (Cons x xs)
  let ?cleared = "map (\<lambda>axis. axis\<lparr>p_changed := False\<rparr>) (axes g)"
  let ?h = "g'\<lparr>axes := (axes g')[sid := (axes g' ! sid)\<lparr>p_value := x, p_changed := True\<rparr>]\<rparr>"
  let ?t = "g\<lparr>axes := (axes g)[sid := (axes g ! sid)\<lparr>p_value := x\<rparr>]\<rparr>"
  from Cons.prems(1) assms(1,2) have l: "sid < length (axes g')"
    and k: "p_kind (axes g' ! sid) = Rotation axis_v origin" by simp_all
  have ax: "axes (slits_func sid g' x)
          = ?cleared [sid := (axes g ! sid)\<lparr>p_value := x, p_changed := False\<rparr>]"
    unfolding slits_func_axes(1) [OF l k] Cons.prems(1) using assms(1)
    by (simp add: map_update comp_def)
  have pos: "\<forall>i. p_kind (axes ?h ! i) = p_kind (axes ?t ! i)
                 \<and> p_value (axes ?h ! i) = p_value (axes ?t ! i)"
  proof
    fix i
    show "p_kind (axes ?h ! i) = p_kind (axes ?t ! i)
          \<and> p_value (axes ?h ! i) = p_value (axes ?t ! i)"
    proof (cases "i = sid")
      case True
      with assms(1) show ?thesis by (simp add: Cons.prems(1))
    next
      case False
      with cleared_positions [of "axes g" i] show ?thesis by (simp add: Cons.prems(1))
    qed
  qed
  have "holders (slits_func sid g' x) = map (hkl_holder_update ?t) (holders g)"
    unfolding slits_func_holders [OF l k] Cons.prems(2)
    by (simp add: hkl_holder_update_positions(1) [OF pos])
  from Cons.IH [OF ax this] show ?case by simp
qed

lemma fit_slits_orientation_holders:
  assumes "sid < length (axes g)" and "p_kind (axes g ! sid) = Rotation axis_v origin"
  shows "holders (snd (fit_slits_orientation restrict_pos xs gsl_continue sid g))
           = map (hkl_holder_update
                    (g\<lparr>axes := (axes g)
                         [sid := (axes g ! sid)\<lparr>p_value := last (p_value (axes g ! sid) # xs)\<rparr>]\<rparr>))
               (holders g)"
proof -
  let ?x0 = "p_value (axes g ! sid)"
  let ?h = "g\<lparr>axes := (axes g)[sid := (axes g ! sid)\<lparr>p_value := ?x0, p_changed := True\<rparr>]\<rparr>"
  let ?t = "g\<lparr>axes := (axes g)[sid := (axes g ! sid)\<lparr>p_value := ?x0\<rparr>]\<rparr>"
  have pos: "\<forall>i. p_kind (axes ?h ! i) = p_kind (axes ?t ! i)
                 \<and> p_value (axes ?h ! i) = p_value (axes ?t ! i)"
    using assms(1) by (simp add: nth_list_update)
  have first: "holders (slits_func sid g ?x0) = map (hkl_holder_update ?t) (holders g)"
    unfolding slits_func_holders [OF assms]
    by (rule map_cong [OF refl]) (rule hkl_holder_update_positions(2) [OF pos])
  from slits_fold_holders [OF assms slits_func_axes(1) [OF assms] first, of xs]
  have "holders (foldl (slits_func sid) g (?x0 # xs))
          = map (hkl_holder_update
                   (g\<lparr>axes := (axes g)[sid := (axes g ! sid)\<lparr>p_value := last (?x0 # xs)\<rparr>]\<rparr>))
              (holders g)"
    by simp
  then show ?thesis
    by (simp add: fit_slits_orientation_def Let_def del: foldl_Cons)
qed

lemma multiply_soleil_sixs_med_2_3_result:
  fixes geometry :: HklGeometry and restrict_pos :: "real \<Rightarrow> real"
    and xs :: "real list" and gsl_continue :: bool
  defines "slits_id \<equiv> last (h_idx (holders geometry ! 1))"
    and "g' \<equiv> hkl_geometry_list_multiply_soleil_sixs_med_2_3 restrict_pos xs gsl_continue
                 geometry"
  assumes "slits_id < length (axes geometry)"
    and "p_kind (axes geometry ! slits_id) = Rotation axis_v origin"
  shows "axes g' = (map (\<lambda>axis. axis\<lparr>p_changed := False\<rparr>) (axes geometry))
              [slits_id := (axes geometry ! slits_id)
                 \<lparr>p_value := (if gsl_continue then p_value (axes geometry ! slits_id)
                               else restrict_pos (last (p_value (axes geometry ! slits_id) # xs))),
                  p_changed := gsl_continue\<rparr>]"
    and "wave_length g' = wave_length geometry"
    and "holders g' = map (hkl_holder_update
                       (geometry\<lparr>axes := (axes geometry)
                          [slits_id := (axes geometry ! slits_id)
                             \<lparr>p_value := last (p_value (axes geometry ! slits_id) # xs)\<rparr>]\<rparr>))
                    (holders geometry)"
proof -
  let ?x0 = "p_value (axes geometry ! slits_id)"
  let ?cleared = "map (\<lambda>axis. axis\<lparr>p_changed := False\<rparr>) (axes geometry)"
  define r where "r = fit_slits_orientation restrict_pos xs gsl_continue slits_id geometry"
  note fit = fit_slits_orientation_axes [OF assms(3,4), of restrict_pos xs gsl_continue,
      folded r_def]
  note fith = fit_slits_orientation_holders [OF assms(3,4), of restrict_pos xs gsl_continue,
      folded r_def]
  have k: "p_kind (axes (snd r) ! slits_id) = Rotation axis_v origin"
    unfolding fit(2) using assms(3,4) by simp
  have g': "g' = (if gsl_continue
                  then (snd r)\<lparr>axes := (axes (snd r))
                          [slits_id := ignore_value_set (axes (snd r) ! slits_id) ?x0]\<rparr>
                  else snd r)"
    unfolding g'_def hkl_geometry_list_multiply_soleil_sixs_med_2_3_def Let_def
      slits_id_def [symmetric] hkl_parameter_value_get_def r_def [symmetric]
    using fit(1) by (simp add: split_beta)
  show "wave_length g' = wave_length geometry" by (simp add: g' fit(3))
  show "holders g' = map (hkl_holder_update
                       (geometry\<lparr>axes := (axes geometry)
                          [slits_id := (axes geometry ! slits_id)
                             \<lparr>p_value := last (?x0 # xs)\<rparr>]\<rparr>))
                    (holders geometry)"
    by (simp add: g' fith)
  show "axes g' = ?cleared
              [slits_id := (axes geometry ! slits_id)
                 \<lparr>p_value := (if gsl_continue then ?x0 else restrict_pos (last (?x0 # xs))),
                  p_changed := gsl_continue\<rparr>]"
  proof (cases gsl_continue)
    case True
    then have "axes g' = (axes (snd r))
                      [slits_id := (axes (snd r) ! slits_id)\<lparr>p_value := ?x0, p_changed := True\<rparr>]"
      by (simp add: g' rotation_value_set [OF k])
    also have "\<dots> = ?cleared [slits_id := (axes geometry ! slits_id)
                                   \<lparr>p_value := ?x0, p_changed := True\<rparr>]"
      unfolding fit(2) using assms(3) True by simp
    finally show ?thesis using True by simp
  next
    case False
    then show ?thesis by (simp add: g' fit(2))
  qed
qed

text \<open>
  Claim C10, as the code has it. Whatever points the solver tries and whatever function
  restricts the angle, \<^verbatim>\<open>hkl_geometry_list_multiply_soleil_sixs_med_2_3\<close> changes the value
  of no axis but the last one of the detector holder, the slit axis, when that axis is a
  rotation: every other axis is as before, with its \<^verbatim>\<open>changed\<close> flag cleared. If the fit
  fails, the slit axis has exactly its value from before the fit, so every axis value of
  the geometry is as before; if it succeeds, its value is the restricted angle of the last
  point tried. The geometry is not left as it was: after a failure the slit axis is marked
  as changed, and, after a failure as after a success, every holder has the quaternion
  computed with the slit axis at the last point tried, because the restore is not followed
  by \<^verbatim>\<open>hkl_geometry_update\<close>. The wavelength and the axes of the holders are as before.
\<close>

theorem multiply_soleil_sixs_med_2_3_frame:
  fixes geometry :: HklGeometry and restrict_pos :: "real \<Rightarrow> real"
    and xs :: "real list" and gsl_continue :: bool
  defines "slits_id \<equiv> last (h_idx (holders geometry ! 1))"
    and "g' \<equiv> hkl_geometry_list_multiply_soleil_sixs_med_2_3 restrict_pos xs gsl_continue
                 geometry"
  assumes "1 < length (holders geometry)"
    and "h_idx (holders geometry ! 1) \<noteq> []"
    and "slits_id < length (axes geometry)"
    and "p_kind (axes geometry ! slits_id) = Rotation axis_v origin"
  shows "length (axes g') = length (axes geometry)
       \<and> (\<forall>i < length (axes geometry). i \<noteq> slits_id \<longrightarrow>
             axes g' ! i = (axes geometry ! i)\<lparr>p_changed := False\<rparr>)
       \<and> (gsl_continue \<longrightarrow>
             axes g' ! slits_id = (axes geometry ! slits_id)\<lparr>p_changed := True\<rparr>
           \<and> map p_value (axes g') = map p_value (axes geometry))
       \<and> (\<not> gsl_continue \<longrightarrow>
             axes g' ! slits_id
               = (axes geometry ! slits_id)
                   \<lparr>p_value := restrict_pos (last (p_value (axes geometry ! slits_id) # xs)),
                    p_changed := False\<rparr>)
       \<and> wave_length g' = wave_length geometry
       \<and> map h_idx (holders g') = map h_idx (holders geometry)
       \<and> holders g' = map (hkl_holder_update
                       (geometry\<lparr>axes := (axes geometry)
                          [slits_id := (axes geometry ! slits_id)
                             \<lparr>p_value := last (p_value (axes geometry ! slits_id) # xs)\<rparr>]\<rparr>))
                    (holders geometry)"
proof -
  note res = multiply_soleil_sixs_med_2_3_result [OF assms(5,6) [unfolded slits_id_def],
      of restrict_pos xs gsl_continue, folded slits_id_def g'_def]
  note ax = res(1)
  show ?thesis
  proof (intro conjI allI impI)
    show "length (axes g') = length (axes geometry)" by (simp add: ax)
    show "wave_length g' = wave_length geometry" by (rule res(2))
    show "holders g' = map (hkl_holder_update
                       (geometry\<lparr>axes := (axes geometry)
                          [slits_id := (axes geometry ! slits_id)
                             \<lparr>p_value := last (p_value (axes geometry ! slits_id) # xs)\<rparr>]\<rparr>))
                    (holders geometry)" by (rule res(3))
    then show "map h_idx (holders g') = map h_idx (holders geometry)"
      by (simp add: hkl_holder_update_def comp_def)
  next
    fix i assume "i < length (axes geometry)" "i \<noteq> slits_id"
    then show "axes g' ! i = (axes geometry ! i)\<lparr>p_changed := False\<rparr>" by (simp add: ax)
  next
    assume c: gsl_continue
    then show "axes g' ! slits_id = (axes geometry ! slits_id)\<lparr>p_changed := True\<rparr>"
      using assms(5) by (simp add: ax)
    show "map p_value (axes g') = map p_value (axes geometry)"
    proof (rule nth_equalityI)
      show "length (map p_value (axes g')) = length (map p_value (axes geometry))"
        by (simp add: ax)
      fix i assume "i < length (map p_value (axes g'))"
      then have i: "i < length (axes geometry)" by (simp add: ax)
      then show "map p_value (axes g') ! i = map p_value (axes geometry) ! i"
        using c by (cases "i = slits_id") (simp_all add: ax)
    qed
  next
    assume "\<not> gsl_continue"
    then show "axes g' ! slits_id
               = (axes geometry ! slits_id)
                   \<lparr>p_value := restrict_pos (last (p_value (axes geometry ! slits_id) # xs)),
                    p_changed := False\<rparr>"
      using assms(5) by (simp add: ax)
  qed
qed

text \<open>
  The MED 2+3 geometry with the slit axis at \<open>1\<close>, the trial point \<open>-1\<close> and the restriction
  to \<open>[0, 2\<pi>)\<close>: a failure leaves every value, a success puts \<open>2\<pi> - 1\<close> on the slit axis.
\<close>

theorem multiply_soleil_sixs_med_2_3_frame_witness:
  "map p_value (axes (hkl_geometry_list_multiply_soleil_sixs_med_2_3
       (\<lambda>x. x - 2 * pi * of_int \<lfloor>x / (2 * pi)\<rfloor>) [- 1] True
       (sixs_med_2_3 [0, 0, 0, 0, 0, 1]))) = [0, 0, 0, 0, 0, 1]
   \<and> p_value (axes (hkl_geometry_list_multiply_soleil_sixs_med_2_3
       (\<lambda>x. x - 2 * pi * of_int \<lfloor>x / (2 * pi)\<rfloor>) [- 1] False
       (sixs_med_2_3 [0, 0, 0, 0, 0, 1])) ! 5) = 2 * pi - 1
   \<and> p_value (axes (hkl_geometry_list_multiply_soleil_sixs_med_2_3
       (\<lambda>x. x - 2 * pi * of_int \<lfloor>x / (2 * pi)\<rfloor>) [- 1] False
       (sixs_med_2_3 [0, 0, 0, 0, 0, 1])) ! 4) = 0"
proof -
  let ?G = "sixs_med_2_3 [0, 0, 0, 0, 0, 1]"
  let ?R = "\<lambda>x::real. x - 2 * pi * of_int \<lfloor>x / (2 * pi)\<rfloor>"
  have sid: "last (h_idx (holders ?G ! 1)) = 5" by (simp add: sixs_med_2_3_def)
  have h: "1 < length (holders ?G)" "h_idx (holders ?G ! 1) \<noteq> []"
    "last (h_idx (holders ?G ! 1)) < length (axes ?G)"
    "p_kind (axes ?G ! last (h_idx (holders ?G ! 1))) = Rotation (- 1, 0, 0) (0, 0, 0)"
    by (simp_all add: sixs_med_2_3_def)
  have fl: "\<lfloor>- 1 / (2 * pi)\<rfloor> = - 1"
    using pi_ge_two by (simp add: floor_eq_iff)
  note t = multiply_soleil_sixs_med_2_3_frame [OF h, of ?R "[- 1]"]
  from t [of True] have 1: "map p_value (axes (hkl_geometry_list_multiply_soleil_sixs_med_2_3
       ?R [- 1] True ?G)) = [0, 0, 0, 0, 0, 1]"
    by (simp add: sixs_med_2_3_def)
  from t [of False] have 2: "p_value (axes (hkl_geometry_list_multiply_soleil_sixs_med_2_3
       ?R [- 1] False ?G) ! 5) = 2 * pi - 1"
    unfolding sid using fl by simp
  from t [of False] have "\<forall>i < length (axes ?G). i \<noteq> 5 \<longrightarrow>
      axes (hkl_geometry_list_multiply_soleil_sixs_med_2_3 ?R [- 1] False ?G) ! i
        = (axes ?G ! i)\<lparr>p_changed := False\<rparr>"
    unfolding sid by (rule conjunct2 [THEN conjunct1])
  then have 3: "p_value (axes (hkl_geometry_list_multiply_soleil_sixs_med_2_3
       ?R [- 1] False ?G) ! 4) = 0"
    by (simp add: sixs_med_2_3_def)
  from 1 2 3 show ?thesis by (intro conjI)
qed

text \<open>
  A fit that fails, on a geometry that is up to date. The MED 2+3 geometry has every axis
  at \<open>0\<close> but the slit axis, at \<open>1\<close>, no axis marked as changed, and the quaternions that
  \<^verbatim>\<open>hkl_geometry_update\<close> computes for these values. The solver evaluates \<^verbatim>\<open>slits_func\<close>
  at the start point and at \<open>2\<close> and ends with \<^verbatim>\<open>GSL_CONTINUE\<close>. Every axis value is as
  before, and the geometry is not: the detector holder has the quaternion of the slit axis
  at \<open>2\<close>, and the slit axis is marked as changed.
\<close>

theorem multiply_failure_changes_geometry:
  "map (hkl_holder_update (sixs_med_2_3_slits 1)) (holders (sixs_med_2_3_slits 1))
     = holders (sixs_med_2_3_slits 1)
   \<and> map p_changed (axes (sixs_med_2_3_slits 1)) = [False, False, False, False, False, False]
   \<and> map p_value (axes (hkl_geometry_list_multiply_soleil_sixs_med_2_3
         (\<lambda>x. x - 2 * pi * of_int \<lfloor>x / (2 * pi)\<rfloor>) [2] True (sixs_med_2_3_slits 1)))
       = map p_value (axes (sixs_med_2_3_slits 1))
   \<and> h_q (holders (sixs_med_2_3_slits 1) ! 1) = (cos (1 / 2), - sin (1 / 2), 0, 0)
   \<and> h_q (holders (hkl_geometry_list_multiply_soleil_sixs_med_2_3
         (\<lambda>x. x - 2 * pi * of_int \<lfloor>x / (2 * pi)\<rfloor>) [2] True (sixs_med_2_3_slits 1)) ! 1)
       = (cos 1, - sin 1, 0, 0)
   \<and> cos (1::real) < cos (1 / 2)
   \<and> p_changed (axes (hkl_geometry_list_multiply_soleil_sixs_med_2_3
         (\<lambda>x. x - 2 * pi * of_int \<lfloor>x / (2 * pi)\<rfloor>) [2] True (sixs_med_2_3_slits 1)) ! 5)
   \<and> hkl_geometry_list_multiply_soleil_sixs_med_2_3
         (\<lambda>x. x - 2 * pi * of_int \<lfloor>x / (2 * pi)\<rfloor>) [2] True (sixs_med_2_3_slits 1)
       \<noteq> sixs_med_2_3_slits 1"
proof -
  let ?G = "sixs_med_2_3_slits 1"
  let ?R = "\<lambda>x::real. x - 2 * pi * of_int \<lfloor>x / (2 * pi)\<rfloor>"
  let ?g' = "hkl_geometry_list_multiply_soleil_sixs_med_2_3 ?R [2] True ?G"
  have sid: "last (h_idx (holders ?G ! 1)) = 5"
    by (simp add: sixs_med_2_3_slits_def sixs_med_2_3_def)
  have h: "last (h_idx (holders ?G ! 1)) < length (axes ?G)"
    "p_kind (axes ?G ! last (h_idx (holders ?G ! 1))) = Rotation (- 1, 0, 0) (0, 0, 0)"
    by (simp_all add: sixs_med_2_3_slits_def sixs_med_2_3_def)
  note res = multiply_soleil_sixs_med_2_3_result [OF h, of ?R "[2]" True, unfolded sid]
  have 1: "map (hkl_holder_update ?G) (holders ?G) = holders ?G"
    by (simp add: sixs_med_2_3_slits_def sixs_med_2_3_def hkl_holder_update_def)
  have 2: "map p_changed (axes ?G) = [False, False, False, False, False, False]"
    by (simp add: sixs_med_2_3_slits_def sixs_med_2_3_def)
  have 3: "map p_value (axes ?g') = map p_value (axes ?G)"
    unfolding res(1) by (simp add: sixs_med_2_3_slits_def sixs_med_2_3_def)
  have 4: "h_q (holders ?G ! 1) = (cos (1 / 2), - sin (1 / 2), 0, 0)"
    by (simp add: sixs_med_2_3_slits_def sixs_med_2_3_def)
  have 5: "h_q (holders ?g' ! 1) = (cos 1, - sin 1, 0, 0)"
    unfolding res(3)
    by (simp add: sixs_med_2_3_slits_def sixs_med_2_3_def hkl_holder_update_def)
  have 6: "cos (1::real) < cos (1 / 2)"
    using pi_ge_two by (intro cos_monotone_0_pi) simp_all
  have 7: "p_changed (axes ?g' ! 5)"
    unfolding res(1) by (simp add: sixs_med_2_3_slits_def sixs_med_2_3_def)
  from 4 5 6 have 8: "?g' \<noteq> ?G" by auto
  from 1 2 3 4 5 6 7 8 show ?thesis by (intro conjI)
qed

end
